theory Spec2Isabelle
  imports Main "HOL-Library.Word"
begin

unbundle bit_operations_syntax

section \<open>Offsets (src/llvm/AnalysisGeneric.h)\<close>

text \<open>
  \<^verbatim>\<open>struct Offset\<close> wraps one \<^verbatim>\<open>uint64_t\<close>; the all-ones value
  \<^verbatim>\<open>~((uint64_t) 0)\<close> stands for an unknown offset. The field is a 64-bit word, so
  \<open>+\<close> on it wraps exactly as the C++ addition does.
\<close>

type_synonym uint64_t = "64 word"

definition UNKNOWN_OFFSET :: uint64_t where
  "UNKNOWN_OFFSET = NOT 0"

datatype Offset = Offset (offset: uint64_t)

definition isUnknown :: "Offset \<Rightarrow> bool" where
  "isUnknown a = (offset a = UNKNOWN_OFFSET)"

text \<open>\<^verbatim>\<open>Offset::operator+\<close>.\<close>

definition Offset_plus :: "Offset \<Rightarrow> Offset \<Rightarrow> Offset" where
  "Offset_plus a o' =
     (if offset a = UNKNOWN_OFFSET \<or> offset o' = UNKNOWN_OFFSET then Offset UNKNOWN_OFFSET
      else Offset (offset a + offset o'))"

text \<open>\<^verbatim>\<open>Offset::operator+=\<close>: the receiver after the call.\<close>

definition Offset_plus_assign :: "Offset \<Rightarrow> Offset \<Rightarrow> Offset" where
  "Offset_plus_assign a o' =
     (if offset a = UNKNOWN_OFFSET then a
      else if offset o' = UNKNOWN_OFFSET then Offset UNKNOWN_OFFSET
      else Offset (offset a + offset o'))"

text \<open>\<^verbatim>\<open>Offset::operator<\<close> compares the raw words.\<close>

definition Offset_less :: "Offset \<Rightarrow> Offset \<Rightarrow> bool" where
  "Offset_less a o' = (offset a < offset o')"

section \<open>The points-to set with small offsets (SmallOffsetsPointsToSet.h)\<close>

subsection \<open>Pointers\<close>

text \<open>
  Modelled from the spec: the header \<^verbatim>\<open>dg/analysis/PointsTo/Pointer.h\<close> is not among the
  sources. The spec gives a Pointer as the pair (target identity, Offset), equal when both
  components are equal; the set's code reads the fields \<^verbatim>\<open>target\<close> and \<^verbatim>\<open>offset\<close>.
  A \<^verbatim>\<open>PSNode *\<close> is the address of the node. The \<^verbatim>\<open>Offset\<close> of this header and of the
  reaching-definitions header comes from \<^verbatim>\<open>dg/analysis/Offset.h\<close>, which is not among the
  sources either; both use it through \<^verbatim>\<open>isUnknown()\<close>, \<^verbatim>\<open>operator*\<close> and the constant
  \<^verbatim>\<open>UNKNOWN\<close>, which the struct above provides with the same meaning.
\<close>

type_synonym PSNode = nat

datatype Pointer = Pointer (target: PSNode) (ptr_offset: Offset)

text \<open>
  \<^verbatim>\<open>Offset::UNKNOWN\<close>, of the header \<^verbatim>\<open>dg/analysis/Offset.h\<close>: the offset whose
  \<^verbatim>\<open>isUnknown()\<close> holds.
\<close>

definition Offset_UNKNOWN :: Offset where
  "Offset_UNKNOWN = Offset UNKNOWN_OFFSET"

subsection \<open>The bit index\<close>

text \<open>
  Modelled from the spec: \<^verbatim>\<open>ADT::SparseBitvector\<close> (\<^verbatim>\<open>dg/ADT/Bitvector.h\<close>) is not among the
  sources. The spec calls it a dense/sparse bit index over positions; it is the set of the
  positions whose bit is on. As its callers use the results, \<^verbatim>\<open>set(i)\<close> returns the bit's
  previous value (the caller negates it to report a change), \<^verbatim>\<open>unset(i)\<close> returns whether the
  bit was on (the caller accumulates it as a change), \<^verbatim>\<open>get(i)\<close> reads the bit, and
  \<^verbatim>\<open>set(rhs)\<close> is the bitwise union and returns whether anything changed.
\<close>

type_synonym SparseBitvector = "nat set"

definition SparseBitvector_set :: "nat \<Rightarrow> SparseBitvector \<Rightarrow> bool \<times> SparseBitvector" where
  "SparseBitvector_set i B = (i \<in> B, insert i B)"

definition SparseBitvector_unset :: "nat \<Rightarrow> SparseBitvector \<Rightarrow> bool \<times> SparseBitvector" where
  "SparseBitvector_unset i B = (i \<in> B, B - {i})"

definition SparseBitvector_get :: "nat \<Rightarrow> SparseBitvector \<Rightarrow> bool" where
  "SparseBitvector_get i B = (i \<in> B)"

definition SparseBitvector_set_all :: "SparseBitvector \<Rightarrow> SparseBitvector \<Rightarrow> bool \<times> SparseBitvector" where
  "SparseBitvector_set_all rhs B = (\<not> rhs \<subseteq> B, B \<union> rhs)"

subsection \<open>The process-wide identity table\<close>

text \<open>
  The two static members \<^verbatim>\<open>ids\<close> (a \<^verbatim>\<open>std::map<PSNode*, size_t>\<close>) and \<^verbatim>\<open>idVector\<close> are
  shared by every set, so they form a state of their own that each operation receives and
  returns. The map is an association list: \<^verbatim>\<open>find\<close> is \<open>map_of\<close>, \<^verbatim>\<open>size()\<close> is the
  length (a key is only ever inserted when \<^verbatim>\<open>find\<close> has failed), and the map's iteration
  order is never used. Identities and positions are natural numbers: a \<^verbatim>\<open>size_t\<close>
  position \<open>(id - 1) * 64 + 63\<close> can only wrap once the table holds \<open>2 ^ 58\<close> entries, more
  than a 64-bit address space can store.
\<close>

record IdTable =
  ids :: "(PSNode \<times> nat) list"
  idVector :: "PSNode list"

text \<open>Both static containers start empty.\<close>

definition IdTable_init :: IdTable where
  "IdTable_init = \<lparr>ids = [], idVector = []\<rparr>"

text \<open>
  \<^verbatim>\<open>getNodeID\<close>: the identity on record when there is one; otherwise the node is pushed to
  \<^verbatim>\<open>idVector\<close> and entered into \<^verbatim>\<open>ids\<close> with the value \<^verbatim>\<open>ids.size() + 1\<close>.
\<close>

definition getNodeID :: "PSNode \<Rightarrow> IdTable \<Rightarrow> nat \<times> IdTable" where
  "getNodeID node g =
     (case map_of (ids g) node of
        Some i \<Rightarrow> (i, g)
      | None \<Rightarrow>
          (let g1 = g\<lparr>idVector := idVector g @ [node]\<rparr>;
               v = length (ids g1) + 1
           in (v, g1\<lparr>ids := ids g1 @ [(node, v)]\<rparr>)))"

definition getNodePosition :: "PSNode \<Rightarrow> IdTable \<Rightarrow> nat \<times> IdTable" where
  "getNodePosition node g = (let (i, g') = getNodeID node g in ((i - 1) * 64, g'))"

definition getPosition :: "PSNode \<Rightarrow> Offset \<Rightarrow> IdTable \<Rightarrow> nat \<times> IdTable" where
  "getPosition node off g =
     (if isUnknown off then (let (p, g') = getNodePosition node g in (p + 63, g'))
      else (let (p, g') = getNodePosition node g in (p + unat (offset off), g')))"

text \<open>
  The index inside a target's block of 64 positions that \<^verbatim>\<open>getPosition\<close> adds to the
  block's first position: 63 for the unknown offset, the offset's value otherwise.
\<close>

definition block_index :: "Offset \<Rightarrow> nat" where
  "block_index off = (if isUnknown off then 63 else unat (offset off))"

definition isOffsetValid :: "Offset \<Rightarrow> bool" where
  "isOffsetValid off = (isUnknown off \<or> offset off \<le> 62)"

text \<open>
  The identities a run of the program has handed out: the table after the nodes \<open>ns\<close>
  have been looked up, in this order, starting from the empty table.
\<close>

definition table_after :: "PSNode list \<Rightarrow> IdTable" where
  "table_after ns = foldl (\<lambda>g n. snd (getNodeID n g)) IdTable_init ns"

text \<open>
  The table's invariant: the identities are \<open>1, 2, ...\<close> in the order of \<^verbatim>\<open>idVector\<close>, which
  lists every node once.
\<close>

definition ids_wf :: "IdTable \<Rightarrow> bool" where
  "ids_wf g = (distinct (idVector g) \<and>
     map_of (ids g) = map_of (zip (idVector g) [1..<Suc (length (idVector g))]) \<and>
     length (ids g) = length (idVector g))"

subsection \<open>The set and its operations\<close>

text \<open>
  A set is the bit index \<^verbatim>\<open>pointers\<close> (64 positions per target identity, position 63 of a
  block standing for the unknown offset) and the overflow set \<^verbatim>\<open>largePointers\<close>. A method
  that changes the set returns its result, the set and the identity table after the call;
  a \<^verbatim>\<open>const\<close> method returns its result and the table, which \<^verbatim>\<open>getNodeID\<close> may extend
  even there.
\<close>

record SmallOffsetsPointsToSet =
  pointers :: SparseBitvector
  largePointers :: "Pointer set"

definition pointsTo :: "SmallOffsetsPointsToSet \<Rightarrow> Pointer \<Rightarrow> IdTable \<Rightarrow> bool \<times> IdTable" where
  "pointsTo S ptr g =
     (if isOffsetValid (ptr_offset ptr)
      then (let (p, g') = getPosition (target ptr) (ptr_offset ptr) g
            in (SparseBitvector_get p (pointers S), g'))
      else (ptr \<in> largePointers S, g))"

definition count :: "SmallOffsetsPointsToSet \<Rightarrow> Pointer \<Rightarrow> IdTable \<Rightarrow> nat \<times> IdTable" where
  "count S ptr g = (let (b, g') = pointsTo S ptr g in (if b then 1 else 0, g'))"

definition has :: "SmallOffsetsPointsToSet \<Rightarrow> Pointer \<Rightarrow> IdTable \<Rightarrow> bool \<times> IdTable" where
  "has S ptr g = (let (c, g') = count S ptr g in (c > 0, g'))"

definition mayPointTo :: "SmallOffsetsPointsToSet \<Rightarrow> Pointer \<Rightarrow> IdTable \<Rightarrow> bool \<times> IdTable" where
  "mayPointTo S ptr g =
     (let (a, g1) = pointsTo S ptr g
      in if a then (True, g1) else pointsTo S (Pointer (target ptr) Offset_UNKNOWN) g1)"

text \<open>
  \<^verbatim>\<open>removeAny\<close>: the first loop clears the 64 positions of the target's block one by one;
  the second walks \<^verbatim>\<open>largePointers\<close> and erases every pointer to the target, so what is
  left are the pointers to other targets, and \<^verbatim>\<open>changed\<close> is set when one was erased.
\<close>

definition removeAny ::
  "PSNode \<Rightarrow> SmallOffsetsPointsToSet \<Rightarrow> IdTable \<Rightarrow> bool \<times> SmallOffsetsPointsToSet \<times> IdTable" where
  "removeAny tgt S g =
     (let (position, g') = getNodePosition tgt g;
          (changed, B) =
             foldl (\<lambda>(changed, B) i. let (r, B') = SparseBitvector_unset i B in (changed \<or> r, B'))
               (False, pointers S) [position..<position + 64];
          changed' = (changed \<or> (\<exists>p \<in> largePointers S. target p = tgt));
          L = {p \<in> largePointers S. target p \<noteq> tgt}
      in (changed', S\<lparr>pointers := B, largePointers := L\<rparr>, g'))"

definition addWithUnknownOffset ::
  "PSNode \<Rightarrow> SmallOffsetsPointsToSet \<Rightarrow> IdTable \<Rightarrow> bool \<times> SmallOffsetsPointsToSet \<times> IdTable" where
  "addWithUnknownOffset tgt S g =
     (let (r, S1, g1) = removeAny tgt S g;
          (p, g2) = getPosition tgt Offset_UNKNOWN g1;
          (prev, B) = SparseBitvector_set p (pointers S1)
      in (\<not> prev, S1\<lparr>pointers := B\<rparr>, g2))"

text \<open>\<^verbatim>\<open>add(PSNode *target, Offset off)\<close>.\<close>

definition add ::
  "PSNode \<Rightarrow> Offset \<Rightarrow> SmallOffsetsPointsToSet \<Rightarrow> IdTable \<Rightarrow> bool \<times> SmallOffsetsPointsToSet \<times> IdTable" where
  "add tgt off S g =
     (let (h, g1) = has S (Pointer tgt Offset_UNKNOWN) g
      in if h then (False, S, g1)
         else if isUnknown off then addWithUnknownOffset tgt S g1
         else if isOffsetValid off then
           (let (p, g2) = getPosition tgt off g1;
                (prev, B) = SparseBitvector_set p (pointers S)
            in (\<not> prev, S\<lparr>pointers := B\<rparr>, g2))
         else (Pointer tgt off \<notin> largePointers S,
               S\<lparr>largePointers := insert (Pointer tgt off) (largePointers S)\<rparr>, g1))"

text \<open>\<^verbatim>\<open>add(const Pointer& ptr)\<close>.\<close>

definition add_Pointer ::
  "Pointer \<Rightarrow> SmallOffsetsPointsToSet \<Rightarrow> IdTable \<Rightarrow> bool \<times> SmallOffsetsPointsToSet \<times> IdTable" where
  "add_Pointer ptr S g = add (target ptr) (ptr_offset ptr) S g"

text \<open>
  \<^verbatim>\<open>add(const SmallOffsetsPointsToSet& S)\<close>, the union with the set \<open>rhs\<close>: the bit indexes
  are united bitwise and every pointer of the other overflow set is inserted. No identity
  is looked up, so the table is not involved.
\<close>

definition add_set ::
  "SmallOffsetsPointsToSet \<Rightarrow> SmallOffsetsPointsToSet \<Rightarrow> bool \<times> SmallOffsetsPointsToSet" where
  "add_set rhs S =
     (let (changed, B) = SparseBitvector_set_all (pointers rhs) (pointers S);
          changed' = (changed \<or> \<not> largePointers rhs \<subseteq> largePointers S)
      in (changed', S\<lparr>pointers := B, largePointers := largePointers S \<union> largePointers rhs\<rparr>))"

text \<open>\<^verbatim>\<open>remove(const Pointer& ptr)\<close> and \<^verbatim>\<open>remove(PSNode *target, Offset offset)\<close>.\<close>

definition remove_Pointer ::
  "Pointer \<Rightarrow> SmallOffsetsPointsToSet \<Rightarrow> IdTable \<Rightarrow> bool \<times> SmallOffsetsPointsToSet \<times> IdTable" where
  "remove_Pointer ptr S g =
     (if isOffsetValid (ptr_offset ptr)
      then (let (p, g') = getPosition (target ptr) (ptr_offset ptr) g;
                (r, B) = SparseBitvector_unset p (pointers S)
            in (r, S\<lparr>pointers := B\<rparr>, g'))
      else (ptr \<in> largePointers S, S\<lparr>largePointers := largePointers S - {ptr}\<rparr>, g))"

definition remove_target ::
  "PSNode \<Rightarrow> Offset \<Rightarrow> SmallOffsetsPointsToSet \<Rightarrow> IdTable \<Rightarrow> bool \<times> SmallOffsetsPointsToSet \<times> IdTable" where
  "remove_target tgt off S g = remove_Pointer (Pointer tgt off) S g"

text \<open>The default constructor: both containers empty.\<close>

definition SmallOffsetsPointsToSet_init :: SmallOffsetsPointsToSet where
  "SmallOffsetsPointsToSet_init = \<lparr>pointers = {}, largePointers = {}\<rparr>"

text \<open>
  The invariant of the data model, read through the set's own query: whenever the set
  answers \<^verbatim>\<open>pointsTo\<close> for a target with the unknown offset, it answers no for that target
  with every finite offset.
\<close>

definition unknown_excludes_finite :: "SmallOffsetsPointsToSet \<Rightarrow> IdTable \<Rightarrow> bool" where
  "unknown_excludes_finite S g =
     (\<forall>T k. fst (pointsTo S (Pointer T Offset_UNKNOWN) g) \<and> \<not> isUnknown k
         \<longrightarrow> \<not> fst (pointsTo S (Pointer T k) g))"

text \<open>
  Every bit that is on lies in the block of an identity the table has handed out: bits are
  only ever switched on at positions computed by \<^verbatim>\<open>getPosition\<close>.
\<close>

definition bits_assigned :: "SmallOffsetsPointsToSet \<Rightarrow> IdTable \<Rightarrow> bool" where
  "bits_assigned S g = (\<forall>i \<in> pointers S. i < 64 * length (idVector g))"

text \<open>
  Three sets built with the operations above, after the node at address 7 has been looked
  up once: one holding the finite pointer (7, 3), one holding (7, UNKNOWN), and the first
  after the second has been united into it.
\<close>

definition example_finite :: SmallOffsetsPointsToSet where
  "example_finite = fst (snd (add 7 (Offset 3) SmallOffsetsPointsToSet_init (table_after [7])))"

definition example_unknown :: SmallOffsetsPointsToSet where
  "example_unknown = fst (snd (add 7 Offset_UNKNOWN SmallOffsetsPointsToSet_init (table_after [7])))"

definition example_union :: SmallOffsetsPointsToSet where
  "example_union = snd (add_set example_unknown example_finite)"

section \<open>Reaching definitions (ReachingDefinitions.h)\<close>

subsection \<open>Definition sites and nodes\<close>

text \<open>
  Modelled from the spec: \<^verbatim>\<open>RDMap.h\<close>, which declares \<^verbatim>\<open>DefSite\<close>, \<^verbatim>\<open>DefSiteSetT\<close> and
  \<^verbatim>\<open>RDMap\<close>, is not among the sources. The spec gives a DefSite as the triple (target,
  start offset, length); the node's code reads its fields \<^verbatim>\<open>target\<close>, \<^verbatim>\<open>offset\<close> and
  \<^verbatim>\<open>len\<close>, and a \<^verbatim>\<open>DefSiteSetT\<close> is a set of them that supports \<^verbatim>\<open>insert\<close>, \<^verbatim>\<open>find\<close> and
  iteration. An \<^verbatim>\<open>RDNode *\<close> is the address of the node.
\<close>

type_synonym RDNodePtr = nat

datatype DefSite = DefSite (ds_target: RDNodePtr) (ds_offset: Offset) (len: Offset)

type_synonym DefSiteSetT = "DefSite set"

datatype RDNodeType =
  NONE | ALLOC | DYN_ALLOC | STORE | LOAD | PHI | RETURN | CALL | CALL_RETURN | FORK | JOIN | NOOP

text \<open>
  The fields of \<^verbatim>\<open>RDNode\<close>. The reaching-definitions map \<^verbatim>\<open>def_map\<close> has the absent type
  \<^verbatim>\<open>RDMap\<close>; it stays a type parameter, and the one method that touches it, \<^verbatim>\<open>addDef\<close>,
  receives the map's \<^verbatim>\<open>update\<close> as an argument.
\<close>

record 'm RDNode =
  node_id :: nat
  node_type :: RDNodeType
  bblock :: "nat option"
  dfsid :: nat
  defs :: DefSiteSetT
  overwrites :: DefSiteSetT
  uses :: DefSiteSetT
  def_map :: 'm

text \<open>\<^verbatim>\<open>RDNode(unsigned id, RDNodeType t)\<close>; \<open>m\<close> is the default-constructed map.\<close>

definition RDNode_ctor :: "nat \<Rightarrow> RDNodeType \<Rightarrow> 'm \<Rightarrow> 'm RDNode" where
  "RDNode_ctor i t m =
     \<lparr>node_id = i, node_type = t, bblock = None, dfsid = 0,
      defs = {}, overwrites = {}, uses = {}, def_map = m\<rparr>"

text \<open>The accessors, the overloads on a mutable node first, then the \<^verbatim>\<open>const\<close> ones.\<close>

definition getDefines :: "'m RDNode \<Rightarrow> DefSiteSetT" where
  "getDefines n = defs n"

definition getOverwrites :: "'m RDNode \<Rightarrow> DefSiteSetT" where
  "getOverwrites n = overwrites n"

definition getUses :: "'m RDNode \<Rightarrow> DefSiteSetT" where
  "getUses n = uses n"

definition getDefines_const :: "'m RDNode \<Rightarrow> DefSiteSetT" where
  "getDefines_const n = defs n"

definition getOverwrites_const :: "'m RDNode \<Rightarrow> DefSiteSetT" where
  "getOverwrites_const n = defs n"

definition getUses_const :: "'m RDNode \<Rightarrow> DefSiteSetT" where
  "getUses_const n = uses n"

text \<open>
  \<^verbatim>\<open>RDNode::defines\<close> (the bare name is a keyword here). Each loop returns true at the first site that passes its test, so it is the
  existence of such a site in the collection. \<^verbatim>\<open>Offset::inRange\<close> belongs to the absent
  header \<^verbatim>\<open>dg/analysis/Offset.h\<close> and is the parameter \<open>inRange\<close>; its two bounds are
  \<^verbatim>\<open>*ds.offset\<close> and the wrapping 64-bit sum \<^verbatim>\<open>*ds.offset + *ds.len\<close>.
\<close>

definition RDNode_defines ::
  "(Offset \<Rightarrow> uint64_t \<Rightarrow> uint64_t \<Rightarrow> bool) \<Rightarrow> 'm RDNode \<Rightarrow> RDNodePtr \<Rightarrow> Offset \<Rightarrow> bool" where
  "RDNode_defines inRange n tgt off =
     (if isUnknown off then (\<exists>ds \<in> defs n. ds_target ds = tgt)
      else (\<exists>ds \<in> defs n. ds_target ds = tgt \<and>
               inRange off (offset (ds_offset ds)) (offset (ds_offset ds) + offset (len ds)))
         \<or> (\<exists>ds \<in> overwrites n. ds_target ds = tgt \<and>
               inRange off (offset (ds_offset ds)) (offset (ds_offset ds) + offset (len ds))))"

text \<open>
  \<^verbatim>\<open>addDef(const DefSite& ds, bool strong_update)\<close>; \<open>update\<close> is \<^verbatim>\<open>RDMap::update\<close> and
  \<open>this\<close> the node's own address.
\<close>

definition addDef ::
  "(DefSite \<Rightarrow> RDNodePtr \<Rightarrow> 'm \<Rightarrow> 'm) \<Rightarrow> RDNodePtr \<Rightarrow> DefSite \<Rightarrow> bool \<Rightarrow> 'm RDNode \<Rightarrow> 'm RDNode" where
  "addDef update this ds strong_update n =
     (let n1 = (if strong_update then n\<lparr>overwrites := insert ds (overwrites n)\<rparr>
                else n\<lparr>defs := insert ds (defs n)\<rparr>)
      in n1\<lparr>def_map := update ds this (def_map n1)\<rparr>)"

definition addOverwrites :: "DefSite \<Rightarrow> 'm RDNode \<Rightarrow> 'm RDNode" where
  "addOverwrites ds n = n\<lparr>overwrites := insert ds (overwrites n)\<rparr>"

definition addUse :: "DefSite \<Rightarrow> 'm RDNode \<Rightarrow> 'm RDNode" where
  "addUse ds n = n\<lparr>uses := insert ds (uses n)\<rparr>"

definition isOverwritten :: "'m RDNode \<Rightarrow> DefSite \<Rightarrow> bool" where
  "isOverwritten n ds = (ds \<in> overwrites n)"

subsection \<open>The graph and the analysis object\<close>

text \<open>
  \<^verbatim>\<open>ReachingDefinitionsGraph\<close>: the last identity handed out, the root (\<open>None\<close> for
  \<^verbatim>\<open>nullptr\<close>) and the two vectors of owned blocks and nodes, held by their addresses.
\<close>

record ReachingDefinitionsGraph =
  lastNodeID :: nat
  root :: "RDNodePtr option"
  bblocks :: "nat list"
  nodes :: "RDNodePtr list"

definition getRoot :: "ReachingDefinitionsGraph \<Rightarrow> RDNodePtr option" where
  "getRoot G = root G"

text \<open>
  The defaulted move constructor, as the pair (new object, moved-from object): the scalar
  and the raw root pointer are copied, so the moved-from graph keeps its root; the two
  vectors of owning pointers are taken over and left empty.
\<close>

definition ReachingDefinitionsGraph_move ::
  "ReachingDefinitionsGraph \<Rightarrow> ReachingDefinitionsGraph \<times> ReachingDefinitionsGraph" where
  "ReachingDefinitionsGraph_move G = (G, G\<lparr>bblocks := [], nodes := []\<rparr>)"

text \<open>
  Modelled from the spec: \<^verbatim>\<open>ReachingDefinitionsAnalysisOptions.h\<close> is not among the sources.
  The spec gives \<^verbatim>\<open>maxSetSize\<close> as a configuration value that is a non-negative integer and
  must be at least 1; the constructor compares it with 0.
\<close>

record ReachingDefinitionsAnalysisOptions =
  maxSetSize :: nat

record ReachingDefinitionsAnalysis =
  graph :: ReachingDefinitionsGraph
  dfsnum :: nat
  options :: ReachingDefinitionsAnalysisOptions

text \<open>A failed \<^verbatim>\<open>assert\<close> ends the program with the assertion's message.\<close>

datatype failure = AssertionFailure string

text \<open>
  The two-argument constructor, in a build that keeps assertions. The members are
  initialised first, \<^verbatim>\<open>graph\<close> by moving from the parameter. In the body the name
  \<^verbatim>\<open>graph\<close> is the parameter, which hides the member, so the first assertion reads the root
  of the moved-from graph; the second reads the member \<^verbatim>\<open>options\<close>.
\<close>

definition ReachingDefinitionsAnalysis_ctor ::
  "ReachingDefinitionsGraph \<Rightarrow> ReachingDefinitionsAnalysisOptions
     \<Rightarrow> failure + ReachingDefinitionsAnalysis" where
  "ReachingDefinitionsAnalysis_ctor graph_param opts =
     (let (member, moved_from) = ReachingDefinitionsGraph_move graph_param;
          this = \<lparr>graph = member, dfsnum = 0, options = opts\<rparr>
      in if getRoot moved_from = None then Inl (AssertionFailure ''Root cannot be null'')
         else if \<not> maxSetSize (options this) > 0
           then Inl (AssertionFailure ''The set size must be at least 1'')
         else Inr this)"

section \<open>Auxiliary facts\<close>

subsection \<open>Offsets and block indexes\<close>

lemma UNKNOWN_OFFSET_unat: "unat UNKNOWN_OFFSET = 2 ^ 64 - 1"
  by (simp add: UNKNOWN_OFFSET_def unsigned_minus_1_eq_mask mask_eq_exp_minus_1)

lemma unat_eq_UNKNOWN: "(w = UNKNOWN_OFFSET) = (unat w = 2 ^ 64 - 1)"
  using UNKNOWN_OFFSET_unat by (metis word_unat_eq_iff)

lemma isUnknown_UNKNOWN: "isUnknown Offset_UNKNOWN"
  by (simp add: isUnknown_def Offset_UNKNOWN_def)

lemma isUnknown_iff: "isUnknown off \<longleftrightarrow> off = Offset_UNKNOWN"
  by (cases off) (simp add: isUnknown_def Offset_UNKNOWN_def)

lemma valid_UNKNOWN: "isOffsetValid Offset_UNKNOWN"
  by (simp add: isOffsetValid_def isUnknown_UNKNOWN)

lemma block_index_UNKNOWN: "block_index Offset_UNKNOWN = 63"
  by (simp add: block_index_def isUnknown_UNKNOWN)

lemma block_index_finite: "isOffsetValid off \<Longrightarrow> \<not> isUnknown off \<Longrightarrow> block_index off \<le> 62"
  by (simp add: block_index_def isOffsetValid_def word_le_nat_alt)

lemma block_index_less: "isOffsetValid off \<Longrightarrow> block_index off < 64"
  using block_index_finite [of off] by (cases "isUnknown off") (simp_all add: block_index_def)

lemma finite_block_index: "isOffsetValid k \<Longrightarrow> \<not> isUnknown k \<Longrightarrow> block_index k < 63"
  using block_index_finite [of k] by simp

lemma block_index_inj:
  "isOffsetValid a \<Longrightarrow> isOffsetValid b \<Longrightarrow> block_index a = block_index b \<longleftrightarrow> a = b"
proof (cases "isUnknown a"; cases "isUnknown b")
  assume "isOffsetValid a" "isOffsetValid b" "\<not> isUnknown a" "\<not> isUnknown b"
  then show ?thesis using word_unat_eq_iff by (cases a; cases b) (auto simp: block_index_def)
next
  assume "isOffsetValid a" "isOffsetValid b" "isUnknown a" "\<not> isUnknown b"
  then show ?thesis using block_index_finite [of b] by (auto simp: isUnknown_iff block_index_UNKNOWN)
next
  assume "isOffsetValid a" "isOffsetValid b" "\<not> isUnknown a" "isUnknown b"
  then show ?thesis using block_index_finite [of a] by (auto simp: isUnknown_iff block_index_UNKNOWN)
qed (simp add: isUnknown_iff)

subsection \<open>Looking up identities\<close>

lemma getNodeID_known: "map_of (ids g) t = Some i \<Longrightarrow> getNodeID t g = (i, g)"
  by (simp add: getNodeID_def)

lemma getNodeID_fresh:
  "map_of (ids g) t = None \<Longrightarrow>
   getNodeID t g = (length (ids g) + 1, \<lparr>ids = ids g @ [(t, length (ids g) + 1)], idVector = idVector g @ [t]\<rparr>)"
  by (simp add: getNodeID_def Let_def)

lemma getNodeID_recorded: "map_of (ids (snd (getNodeID t g))) t = Some (fst (getNodeID t g))"
  by (cases "map_of (ids g) t") (simp_all add: getNodeID_known getNodeID_fresh map_add_def)

lemma getNodeID_again: "getNodeID t (snd (getNodeID t g)) = (fst (getNodeID t g), snd (getNodeID t g))"
  by (rule getNodeID_known [OF getNodeID_recorded])

lemma getNodeID_keeps: "map_of (ids g) t' = Some i \<Longrightarrow> map_of (ids (snd (getNodeID t g))) t' = Some i"
  by (cases "map_of (ids g) t") (auto simp: getNodeID_known getNodeID_fresh)

lemma getNodePosition_eq: "getNodePosition t g = ((fst (getNodeID t g) - 1) * 64, snd (getNodeID t g))"
  by (simp add: getNodePosition_def split_beta)

lemma getNodePosition_again:
  "getNodePosition t (snd (getNodePosition t g)) = (fst (getNodePosition t g), snd (getNodePosition t g))"
  by (simp add: getNodePosition_eq getNodeID_again)

lemma getPosition_eq:
  "getPosition t off g = (fst (getNodePosition t g) + block_index off, snd (getNodePosition t g))"
  by (simp add: getPosition_def block_index_def split_beta)

subsection \<open>The operations in closed form\<close>

text \<open>
  Each operation, with the tuples unpacked and the loop of \<^verbatim>\<open>removeAny\<close> summed up: the 64
  calls of \<^verbatim>\<open>unset\<close> remove the whole block and report whether any of its bits was on.
\<close>

lemma pointsTo_eq:
  "pointsTo S (Pointer t off) g =
     (if isOffsetValid off then (fst (getNodePosition t g) + block_index off \<in> pointers S, snd (getNodePosition t g))
      else (Pointer t off \<in> largePointers S, g))"
  by (simp add: pointsTo_def getPosition_eq SparseBitvector_get_def)

lemma has_eq: "has S p g = pointsTo S p g"
  by (cases "pointsTo S p g") (simp add: has_def count_def)

lemma pointsTo_after_lookup:
  "fst (pointsTo S (Pointer T k) (snd (getNodePosition T g))) = fst (pointsTo S (Pointer T k) g)"
  by (simp add: pointsTo_eq getNodePosition_again)

lemma unset_loop:
  "foldl (\<lambda>(changed, B) i. (changed \<or> i \<in> B, B - {i})) (c, B) xs
     = (c \<or> (\<exists>i \<in> set xs. i \<in> B), B - set xs)"
proof (induction xs arbitrary: c B)
  case Nil
  show ?case by simp
next
  case (Cons x xs)
  have "B - {x} - set xs = B - set (x # xs)" by auto
  moreover have "((c \<or> x \<in> B) \<or> (\<exists>i \<in> set xs. i \<in> B - {x})) = (c \<or> (\<exists>i \<in> set (x # xs). i \<in> B))"
    by auto
  ultimately show ?case by (simp add: Cons.IH)
qed

lemma removeAny_eq:
  "removeAny t S g =
     ((\<exists>i \<in> {fst (getNodePosition t g) ..< fst (getNodePosition t g) + 64}. i \<in> pointers S)
         \<or> (\<exists>p \<in> largePointers S. target p = t),
      S\<lparr>pointers := pointers S - {fst (getNodePosition t g) ..< fst (getNodePosition t g) + 64},
        largePointers := {p \<in> largePointers S. target p \<noteq> t}\<rparr>,
      snd (getNodePosition t g))"
  by (simp add: removeAny_def split_beta SparseBitvector_unset_def unset_loop del: upt_Suc)

lemma addWithUnknownOffset_eq:
  "addWithUnknownOffset t S g =
     (True,
      S\<lparr>pointers := insert (fst (getNodePosition t g) + 63)
            (pointers S - {fst (getNodePosition t g) ..< fst (getNodePosition t g) + 64}),
        largePointers := {p \<in> largePointers S. target p \<noteq> t}\<rparr>,
      snd (getNodePosition t g))"
  by (simp add: addWithUnknownOffset_def removeAny_eq getPosition_eq getNodePosition_again
      block_index_UNKNOWN SparseBitvector_set_def)

lemma add_eq:
  "add t off S g =
     (let p = fst (getNodePosition t g); g1 = snd (getNodePosition t g) in
      if p + 63 \<in> pointers S then (False, S, g1)
      else if isUnknown off then
        (True, S\<lparr>pointers := insert (p + 63) (pointers S - {p ..< p + 64}),
                 largePointers := {q \<in> largePointers S. target q \<noteq> t}\<rparr>, g1)
      else if isOffsetValid off then
        (p + block_index off \<notin> pointers S, S\<lparr>pointers := insert (p + block_index off) (pointers S)\<rparr>, g1)
      else (Pointer t off \<notin> largePointers S,
            S\<lparr>largePointers := insert (Pointer t off) (largePointers S)\<rparr>, g1))"
  by (simp add: add_def has_eq pointsTo_eq valid_UNKNOWN block_index_UNKNOWN Let_def
      addWithUnknownOffset_eq getPosition_eq getNodePosition_again SparseBitvector_set_def)

lemma remove_Pointer_eq:
  "remove_Pointer (Pointer t off) S g =
     (if isOffsetValid off then
        (fst (getNodePosition t g) + block_index off \<in> pointers S,
         S\<lparr>pointers := pointers S - {fst (getNodePosition t g) + block_index off}\<rparr>,
         snd (getNodePosition t g))
      else (Pointer t off \<in> largePointers S, S\<lparr>largePointers := largePointers S - {Pointer t off}\<rparr>, g))"
  by (simp add: remove_Pointer_def getPosition_eq SparseBitvector_unset_def)

lemma removeAny_purges: "\<not> fst (pointsTo (fst (snd (removeAny T S g))) (Pointer T off) (snd (snd (removeAny T S g))))"
proof (cases "isOffsetValid off")
  case True
  then show ?thesis
    using block_index_less [of off]
    by (simp add: removeAny_eq pointsTo_eq getNodePosition_again)
next
  case False
  then show ?thesis by (simp add: removeAny_eq pointsTo_eq)
qed

subsection \<open>The identity table's invariant\<close>

lemma ids_wf_lookup:
  assumes "ids_wf g"
  shows "map_of (ids g) t = Some i \<longleftrightarrow> (1 \<le> i \<and> i \<le> length (idVector g) \<and> idVector g ! (i - 1) = t)"
proof -
  let ?v = "idVector g"
  have d: "distinct ?v" and m: "map_of (ids g) = map_of (zip ?v [1..<Suc (length ?v)])"
    using assms by (simp_all add: ids_wf_def)
  have len: "length ?v = length [1..<Suc (length ?v)]" by (simp del: upt_Suc)
  show ?thesis
  proof
    assume "map_of (ids g) t = Some i"
    then have "(t, i) \<in> set (zip ?v [1..<Suc (length ?v)])"
      using m by (simp add: map_of_SomeD)
    then obtain k where k: "k < length ?v" "?v ! k = t" "[1..<Suc (length ?v)] ! k = i"
      by (auto simp: in_set_zip)
    then have "i = Suc k" by (simp add: nth_upt del: upt_Suc)
    with k show "1 \<le> i \<and> i \<le> length ?v \<and> ?v ! (i - 1) = t" by simp
  next
    assume a: "1 \<le> i \<and> i \<le> length ?v \<and> ?v ! (i - 1) = t"
    then have k: "i - 1 < length ?v" by arith
    have "[1..<Suc (length ?v)] ! (i - 1) = i" using a k by (simp add: nth_upt del: upt_Suc)
    then have "(t, i) \<in> set (zip ?v [1..<Suc (length ?v)])"
      using a k by (auto simp: in_set_zip intro!: exI[of _ "i - 1"])
    moreover have "distinct (map fst (zip ?v [1..<Suc (length ?v)]))"
      using d len by (simp del: upt_Suc)
    ultimately show "map_of (ids g) t = Some i" using m by simp
  qed
qed

lemma ids_wf_None:
  assumes "ids_wf g"
  shows "map_of (ids g) t = None \<longleftrightarrow> t \<notin> set (idVector g)"
proof -
  have "dom (map_of (ids g)) = set (idVector g)"
    using assms by (simp add: ids_wf_def dom_map_of_zip del: upt_Suc)
  then show ?thesis by (metis domIff)
qed

lemma ids_wf_init: "ids_wf IdTable_init"
  by (simp add: ids_wf_def IdTable_init_def)

lemma ids_wf_getNodeID:
  assumes "ids_wf g"
  shows "ids_wf (snd (getNodeID t g))"
proof (cases "map_of (ids g) t")
  case (Some i)
  then show ?thesis using assms by (simp add: getNodeID_known)
next
  case None
  let ?v = "idVector g"
  have d: "distinct ?v" and m: "map_of (ids g) = map_of (zip ?v [1..<Suc (length ?v)])"
    and l: "length (ids g) = length ?v"
    using assms by (simp_all add: ids_wf_def)
  have nin: "t \<notin> set ?v" using None ids_wf_None[OF assms] by simp
  have z: "zip (?v @ [t]) [1..<Suc (Suc (length ?v))] = zip ?v [1..<Suc (length ?v)] @ [(t, Suc (length ?v))]"
    by (simp del: upt_Suc add: upt_Suc_append)
  have "map_of (ids g @ [(t, Suc (length ?v))]) = map_of (zip (?v @ [t]) [1..<Suc (Suc (length ?v))])"
    unfolding z by (simp add: m del: upt_Suc)
  then show ?thesis
    using None d nin l by (simp add: getNodeID_fresh ids_wf_def del: upt_Suc)
qed

lemma ids_wf_table_after_aux:
  "ids_wf g \<Longrightarrow> ids_wf (foldl (\<lambda>g n. snd (getNodeID n g)) g ns)"
  by (induction ns arbitrary: g) (simp_all add: ids_wf_getNodeID)

lemma ids_wf_table_after: "ids_wf (table_after ns)"
  unfolding table_after_def by (rule ids_wf_table_after_aux[OF ids_wf_init])

lemma ids_wf_length: "ids_wf g \<Longrightarrow> length (ids g) = length (idVector g)"
  by (simp add: ids_wf_def)

lemma getNodeID_cases:
  assumes "ids_wf g"
  obtains (known) i where "map_of (ids g) t = Some i" "getNodeID t g = (i, g)" "1 \<le> i" "i \<le> length (idVector g)"
  | (fresh) "map_of (ids g) t = None"
      "getNodeID t g = (length (idVector g) + 1,
         \<lparr>ids = ids g @ [(t, length (idVector g) + 1)], idVector = idVector g @ [t]\<rparr>)"
proof (cases "map_of (ids g) t")
  case None
  then show ?thesis using fresh assms by (simp add: getNodeID_fresh ids_wf_length)
next
  case (Some i)
  then show ?thesis using known [of i] ids_wf_lookup [OF assms, of t i] by (simp add: getNodeID_known)
qed

lemma getNodeID_positive: "ids_wf g \<Longrightarrow> 1 \<le> fst (getNodeID t g)"
  by (rule getNodeID_cases [of g t]) simp_all

lemma getNodeID_bound: "ids_wf g \<Longrightarrow> fst (getNodeID t g) \<le> length (idVector (snd (getNodeID t g)))"
  by (rule getNodeID_cases [of g t]) simp_all

lemma getNodeID_length_mono: "length (idVector g) \<le> length (idVector (snd (getNodeID t g)))"
  by (cases "map_of (ids g) t") (simp_all add: getNodeID_known getNodeID_fresh)

lemma getNodeID_unassigned:
  "ids_wf g \<Longrightarrow> map_of (ids g) t = None \<Longrightarrow> fst (getNodeID t g) = length (idVector g) + 1"
  by (simp add: getNodeID_fresh ids_wf_length)

lemma getNodeID_inj:
  assumes "ids_wf g" "map_of (ids g) t = Some i" "map_of (ids g) t' = Some i"
  shows "t = t'"
  using assms ids_wf_lookup [OF assms(1)] by metis

text \<open>Identities of different nodes differ once both have been looked up.\<close>

lemma getNodeID_separate:
  assumes "ids_wf g" "T \<noteq> t"
  shows "fst (getNodeID T (snd (getNodeID t g))) \<noteq> fst (getNodeID t g)"
proof -
  let ?g1 = "snd (getNodeID t g)"
  let ?g2 = "snd (getNodeID T ?g1)"
  have wf1: "ids_wf ?g1" and wf2: "ids_wf ?g2"
    using assms(1) by (simp_all add: ids_wf_getNodeID)
  have a: "map_of (ids ?g2) T = Some (fst (getNodeID T ?g1))" by (rule getNodeID_recorded)
  have "map_of (ids ?g1) t = Some (fst (getNodeID t g))" by (rule getNodeID_recorded)
  then have b: "map_of (ids ?g2) t = Some (fst (getNodeID t g))" by (rule getNodeID_keeps)
  show ?thesis
  proof
    assume "fst (getNodeID T ?g1) = fst (getNodeID t g)"
    with a b have "T = t" using getNodeID_inj [OF wf2] by metis
    with assms(2) show False by simp
  qed
qed

lemma block_separate:
  fixes i j a b :: nat
  assumes "i \<noteq> j" "1 \<le> i" "1 \<le> j" "a < 64" "b < 64"
  shows "(i - 1) * 64 + a \<noteq> (j - 1) * 64 + b"
  using assms by arith

lemma bits_below:
  "bits_assigned S g \<Longrightarrow> length (idVector g) < i \<Longrightarrow> (i - 1) * 64 + a \<notin> pointers S"
proof
  assume h: "bits_assigned S g" "length (idVector g) < i" "(i - 1) * 64 + a \<in> pointers S"
  then have "(i - 1) * 64 + a < 64 * length (idVector g)"
    by (simp add: bits_assigned_def)
  with h(2) show False by arith
qed

text \<open>What a set answers does not depend on the identities handed out in between.\<close>

lemma pointsTo_table_extended:
  assumes wf: "ids_wf g" and bits: "bits_assigned S g"
  shows "fst (pointsTo S p (snd (getNodeID t g))) = fst (pointsTo S p g)"
proof (cases p)
  case (Pointer T off)
  let ?g1 = "snd (getNodeID t g)"
  have wf1: "ids_wf ?g1" using wf by (rule ids_wf_getNodeID)
  have bits1: "bits_assigned S ?g1"
    using bits getNodeID_length_mono [of g t] by (fastforce simp: bits_assigned_def)
  show ?thesis
  proof (cases "isOffsetValid off")
    case False
    then show ?thesis by (simp add: Pointer pointsTo_eq)
  next
    case True
    show ?thesis
    proof (cases "map_of (ids g) T")
      case (Some i)
      then have "getNodeID T g = (i, g)" "getNodeID T ?g1 = (i, ?g1)"
        by (simp_all add: getNodeID_known getNodeID_keeps)
      then show ?thesis by (simp add: Pointer pointsTo_eq getNodePosition_eq)
    next
      case None
      then have "length (idVector g) < fst (getNodeID T g)"
        using wf by (simp add: getNodeID_unassigned)
      then have l: "(fst (getNodeID T g) - 1) * 64 + block_index off \<notin> pointers S"
        using bits by (rule bits_below [rotated])
      have "length (idVector g) < fst (getNodeID T ?g1)"
      proof (cases "T = t")
        case True
        then show ?thesis using None wf by (simp add: getNodeID_again getNodeID_unassigned)
      next
        case False
        have "map_of (ids ?g1) T = None"
          using None False by (cases "map_of (ids g) t") (simp_all add: getNodeID_known getNodeID_fresh map_add_def)
        then have "fst (getNodeID T ?g1) = length (idVector ?g1) + 1"
          using wf1 by (simp add: getNodeID_unassigned)
        then show ?thesis using getNodeID_length_mono [of g t] by simp
      qed
      then have r: "(fst (getNodeID T ?g1) - 1) * 64 + block_index off \<notin> pointers S"
        using bits by (rule bits_below [rotated])
      show ?thesis using l r True by (simp add: Pointer pointsTo_eq getNodePosition_eq)
    qed
  qed
qed

lemma table_after_keeps:
  "map_of (ids g) t = Some i \<Longrightarrow> map_of (ids (foldl (\<lambda>g n. snd (getNodeID n g)) g ns)) t = Some i"
  by (induction ns arbitrary: g) (simp_all add: getNodeID_keeps)

lemma table_after_nodes:
  "ids_wf g \<Longrightarrow> set (idVector (foldl (\<lambda>g n. snd (getNodeID n g)) g ns)) = set (idVector g) \<union> set ns"
proof (induction ns arbitrary: g)
  case Nil
  show ?case by simp
next
  case (Cons n ns)
  have "set (idVector (snd (getNodeID n g))) = insert n (set (idVector g))"
    using ids_wf_None [OF Cons.prems, of n]
    by (cases "map_of (ids g) n") (auto simp: getNodeID_known getNodeID_fresh)
  then show ?case
    using Cons.IH [OF ids_wf_getNodeID [OF Cons.prems, of n]] by simp
qed

lemma table_after_first: "map_of (ids (table_after (n # ns))) n = Some 1"
proof -
  have "map_of (ids (snd (getNodeID n IdTable_init))) n = Some 1"
    by (simp add: getNodeID_def IdTable_init_def)
  then show ?thesis
    unfolding table_after_def by (simp add: table_after_keeps)
qed

subsection \<open>Reachable states\<close>

text \<open>
  The table's invariant and \<open>bits_assigned\<close> hold of the empty set over the empty table
  and are kept by every operation, so they hold in every state a program can reach.
\<close>

lemma other_block:
  fixes i j a :: nat
  assumes "i \<noteq> j" "1 \<le> i" "1 \<le> j" "a < 64"
  shows "(i - 1) * 64 + a \<notin> {(j - 1) * 64 ..< (j - 1) * 64 + 64}"
  using assms by (simp add: not_less) arith

lemma bits_assigned_later:
  "bits_assigned S g \<Longrightarrow> bits_assigned S (snd (getNodeID t g))"
  using getNodeID_length_mono [of g t] by (fastforce simp: bits_assigned_def)

lemma position_assigned:
  assumes "ids_wf g" "a < 64"
  shows "fst (getNodePosition T g) + a < 64 * length (idVector (snd (getNodePosition T g)))"
proof -
  have "1 \<le> fst (getNodeID T g)" "fst (getNodeID T g) \<le> length (idVector (snd (getNodeID T g)))"
    using getNodeID_positive [OF assms(1), of T] getNodeID_bound [OF assms(1), of T] by simp_all
  then show ?thesis using assms(2) by (simp add: getNodePosition_eq)
qed

lemma pointsTo_other_target:
  assumes wf: "ids_wf g" and bits: "bits_assigned S g" and ne: "T' \<noteq> T"
    and same_bits: "\<And>i. i \<notin> {fst (getNodePosition T g) ..< fst (getNodePosition T g) + 64}
                      \<Longrightarrow> (i \<in> pointers S') = (i \<in> pointers S)"
    and same_large: "\<And>q. target q \<noteq> T \<Longrightarrow> (q \<in> largePointers S') = (q \<in> largePointers S)"
  shows "fst (pointsTo S' (Pointer T' off) (snd (getNodePosition T g))) = fst (pointsTo S (Pointer T' off) g)"
proof -
  let ?g1 = "snd (getNodeID T g)"
  have wf1: "ids_wf ?g1" using wf by (rule ids_wf_getNodeID)
  have "fst (pointsTo S' (Pointer T' off) ?g1) = fst (pointsTo S (Pointer T' off) ?g1)"
  proof (cases "isOffsetValid off")
    case False
    then show ?thesis using same_large [of "Pointer T' off"] ne by (simp add: pointsTo_eq)
  next
    case True
    have "fst (getNodeID T' ?g1) \<noteq> fst (getNodeID T g)"
      using wf ne by (rule getNodeID_separate)
    moreover have "1 \<le> fst (getNodeID T' ?g1)" "1 \<le> fst (getNodeID T g)"
      using getNodeID_positive [OF wf1] getNodeID_positive [OF wf] by simp_all
    moreover have "block_index off < 64" using True by (rule block_index_less)
    ultimately have "(fst (getNodeID T' ?g1) - 1) * 64 + block_index off
        \<notin> {(fst (getNodeID T g) - 1) * 64 ..< (fst (getNodeID T g) - 1) * 64 + 64}"
      by (rule other_block)
    then show ?thesis
      using same_bits [of "(fst (getNodeID T' ?g1) - 1) * 64 + block_index off"] True
      by (simp add: pointsTo_eq getNodePosition_eq)
  qed
  also have "\<dots> = fst (pointsTo S (Pointer T' off) g)"
    using wf bits by (rule pointsTo_table_extended)
  finally show ?thesis by (simp add: getNodePosition_eq)
qed

lemma init_wf: "ids_wf IdTable_init \<and> bits_assigned SmallOffsetsPointsToSet_init g"
  by (simp add: ids_wf_init bits_assigned_def SmallOffsetsPointsToSet_init_def)

lemma add_keeps_wf:
  assumes wf: "ids_wf g" and bits: "bits_assigned S g"
  shows "ids_wf (snd (snd (add T off S g))) \<and>
         bits_assigned (fst (snd (add T off S g))) (snd (snd (add T off S g)))"
proof -
  let ?g1 = "snd (getNodePosition T g)"
  have g1: "?g1 = snd (getNodeID T g)" by (simp add: getNodePosition_eq)
  have wf1: "ids_wf ?g1" unfolding g1 using wf by (rule ids_wf_getNodeID)
  have bits1: "bits_assigned S ?g1" unfolding g1 using bits by (rule bits_assigned_later)
  have new: "fst (getNodePosition T g) + a < 64 * length (idVector ?g1)" if "a < 64" for a
    using wf that by (rule position_assigned)
  have valid: "fst (getNodePosition T g) + block_index off < 64 * length (idVector ?g1)"
    if "isOffsetValid off"
    using new [OF block_index_less [OF that]] .
  show ?thesis
    using wf1 bits1 new [of 63] valid
    by (auto simp: add_eq Let_def bits_assigned_def)
qed

lemma remove_Pointer_keeps_wf:
  assumes wf: "ids_wf g" and bits: "bits_assigned S g"
  shows "ids_wf (snd (snd (remove_Pointer p S g))) \<and>
         bits_assigned (fst (snd (remove_Pointer p S g))) (snd (snd (remove_Pointer p S g)))"
proof (cases p)
  case (Pointer T off)
  have "ids_wf (snd (getNodePosition T g))" "bits_assigned S (snd (getNodePosition T g))"
    using wf bits by (simp_all add: getNodePosition_eq ids_wf_getNodeID bits_assigned_later)
  then show ?thesis
    using wf bits by (auto simp: Pointer remove_Pointer_eq bits_assigned_def)
qed

lemma removeAny_keeps_wf:
  assumes wf: "ids_wf g" and bits: "bits_assigned S g"
  shows "ids_wf (snd (snd (removeAny T S g))) \<and>
         bits_assigned (fst (snd (removeAny T S g))) (snd (snd (removeAny T S g)))"
proof -
  have "ids_wf (snd (getNodePosition T g))" "bits_assigned S (snd (getNodePosition T g))"
    using wf bits by (simp_all add: getNodePosition_eq ids_wf_getNodeID bits_assigned_later)
  then show ?thesis
    by (auto simp: removeAny_eq bits_assigned_def)
qed

lemma add_set_keeps_bits:
  "bits_assigned rhs g \<Longrightarrow> bits_assigned S g \<Longrightarrow> bits_assigned (snd (add_set rhs S)) g"
  by (auto simp: add_set_def SparseBitvector_set_all_def bits_assigned_def)

subsection \<open>Operations that keep the data model's invariant\<close>

text \<open>
  Adding a pair, \<^verbatim>\<open>remove\<close> and \<^verbatim>\<open>removeAny\<close> keep \<open>unknown_excludes_finite\<close>; the
  empty set has it.
\<close>

lemma unknown_excludes_finite_later:
  assumes wf: "ids_wf g" and bits: "bits_assigned S g" and inv: "unknown_excludes_finite S g"
  shows "unknown_excludes_finite S (snd (getNodePosition T g))"
  using inv pointsTo_table_extended [OF wf bits, of _ T]
  by (simp add: unknown_excludes_finite_def getNodePosition_eq)

lemma init_invariant: "unknown_excludes_finite SmallOffsetsPointsToSet_init g"
  by (simp add: unknown_excludes_finite_def SmallOffsetsPointsToSet_init_def pointsTo_eq)

lemma add_keeps_invariant:
  assumes wf: "ids_wf g" and bits: "bits_assigned S g" and inv: "unknown_excludes_finite S g"
  shows "unknown_excludes_finite (fst (snd (add T off S g))) (snd (snd (add T off S g)))"
proof -
  let ?P = "fst (getNodePosition T g)"
  let ?g1 = "snd (getNodePosition T g)"
  let ?S' = "fst (snd (add T off S g))"
  have g': "snd (snd (add T off S g)) = ?g1" by (simp add: add_eq Let_def)
  have inv1: "unknown_excludes_finite S ?g1"
    using wf bits inv by (rule unknown_excludes_finite_later)
  show ?thesis
  proof (cases "?P + 63 \<in> pointers S")
    case True
    then show ?thesis using inv1 by (simp add: add_eq Let_def)
  next
    case no_unknown: False
    have other: "fst (pointsTo ?S' (Pointer T' k) ?g1) = fst (pointsTo S (Pointer T' k) g)"
      if "T' \<noteq> T" for T' k
      using wf bits that
    proof (rule pointsTo_other_target)
      fix i assume "i \<notin> {?P ..< ?P + 64}"
      moreover have "block_index off < 64" if "isOffsetValid off" using that by (rule block_index_less)
      ultimately show "(i \<in> pointers ?S') = (i \<in> pointers S)"
        by (auto simp: add_eq Let_def)
    next
      fix q assume "target q \<noteq> T"
      then show "(q \<in> largePointers ?S') = (q \<in> largePointers S)"
        by (auto simp: add_eq Let_def)
    qed
    have same: "\<not> fst (pointsTo ?S' (Pointer T k) ?g1)"
      if "fst (pointsTo ?S' (Pointer T Offset_UNKNOWN) ?g1)" "\<not> isUnknown k" for k
    proof (cases "isUnknown off")
      case True
      then show ?thesis
        using no_unknown that(2) finite_block_index [of k]
        by (auto simp: add_eq Let_def pointsTo_eq getNodePosition_again)
    next
      case False
      have "block_index off \<noteq> 63" if "isOffsetValid off"
        using finite_block_index [OF that False] by simp
      then have "\<not> fst (pointsTo ?S' (Pointer T Offset_UNKNOWN) ?g1)"
        using no_unknown False
        by (auto simp: add_eq Let_def pointsTo_eq getNodePosition_again valid_UNKNOWN block_index_UNKNOWN)
      with that(1) show ?thesis by simp
    qed
    show ?thesis
      unfolding unknown_excludes_finite_def g'
    proof (intro allI impI)
      fix T' k
      assume a: "fst (pointsTo ?S' (Pointer T' Offset_UNKNOWN) ?g1) \<and> \<not> isUnknown k"
      show "\<not> fst (pointsTo ?S' (Pointer T' k) ?g1)"
      proof (cases "T' = T")
        case True
        then show ?thesis using a same by simp
      next
        case False
        then show ?thesis using a inv by (simp add: other unknown_excludes_finite_def)
      qed
    qed
  qed
qed

lemma remove_Pointer_keeps_invariant:
  assumes wf: "ids_wf g" and bits: "bits_assigned S g" and inv: "unknown_excludes_finite S g"
  shows "unknown_excludes_finite (fst (snd (remove_Pointer p S g))) (snd (snd (remove_Pointer p S g)))"
proof (cases p)
  case (Pointer T off)
  let ?g1 = "snd (getNodePosition T g)"
  have inv1: "unknown_excludes_finite S ?g1"
    using wf bits inv by (rule unknown_excludes_finite_later)
  have mono: "unknown_excludes_finite S' ?g1"
    if "pointers S' \<subseteq> pointers S" "largePointers S' \<subseteq> largePointers S" for S'
    unfolding unknown_excludes_finite_def
  proof (intro allI impI)
    fix T' k
    have m: "fst (pointsTo S' q ?g1) \<Longrightarrow> fst (pointsTo S q ?g1)" for q
      using that by (cases q) (auto simp: pointsTo_eq split: if_splits)
    assume a: "fst (pointsTo S' (Pointer T' Offset_UNKNOWN) ?g1) \<and> \<not> isUnknown k"
    then have "\<not> fst (pointsTo S (Pointer T' k) ?g1)"
      using m inv1 by (auto simp: unknown_excludes_finite_def)
    then show "\<not> fst (pointsTo S' (Pointer T' k) ?g1)" using m by blast
  qed
  show ?thesis
  proof (cases "isOffsetValid off")
    case True
    then show ?thesis
      using mono [of "S\<lparr>pointers := pointers S - {fst (getNodePosition T g) + block_index off}\<rparr>"]
      by (simp add: Pointer remove_Pointer_eq) 
  next
    case False
    have "unknown_excludes_finite (S\<lparr>largePointers := largePointers S - {Pointer T off}\<rparr>) g"
      unfolding unknown_excludes_finite_def
    proof (intro allI impI)
      fix T' k
      have m: "fst (pointsTo (S\<lparr>largePointers := largePointers S - {Pointer T off}\<rparr>) q g) \<Longrightarrow> fst (pointsTo S q g)" for q
        by (cases q) (auto simp: pointsTo_eq split: if_splits)
      assume a: "fst (pointsTo (S\<lparr>largePointers := largePointers S - {Pointer T off}\<rparr>) (Pointer T' Offset_UNKNOWN) g) \<and> \<not> isUnknown k"
      then have "\<not> fst (pointsTo S (Pointer T' k) g)"
        using m inv by (auto simp: unknown_excludes_finite_def)
      then show "\<not> fst (pointsTo (S\<lparr>largePointers := largePointers S - {Pointer T off}\<rparr>) (Pointer T' k) g)"
        using m by blast
    qed
    then show ?thesis using False by (simp add: Pointer remove_Pointer_eq)
  qed
qed

lemma removeAny_keeps_invariant:
  assumes wf: "ids_wf g" and bits: "bits_assigned S g" and inv: "unknown_excludes_finite S g"
  shows "unknown_excludes_finite (fst (snd (removeAny T S g))) (snd (snd (removeAny T S g)))"
proof -
  let ?g1 = "snd (getNodePosition T g)"
  let ?S' = "fst (snd (removeAny T S g))"
  have inv1: "unknown_excludes_finite S ?g1"
    using wf bits inv by (rule unknown_excludes_finite_later)
  have m: "fst (pointsTo ?S' q ?g1) \<Longrightarrow> fst (pointsTo S q ?g1)" for q
    by (cases q) (auto simp: removeAny_eq pointsTo_eq split: if_splits)
  have "unknown_excludes_finite ?S' ?g1"
    unfolding unknown_excludes_finite_def
  proof (intro allI impI)
    fix T' k
    assume a: "fst (pointsTo ?S' (Pointer T' Offset_UNKNOWN) ?g1) \<and> \<not> isUnknown k"
    then have "\<not> fst (pointsTo S (Pointer T' k) ?g1)"
      using m inv1 by (auto simp: unknown_excludes_finite_def)
    then show "\<not> fst (pointsTo ?S' (Pointer T' k) ?g1)" using m by blast
  qed
  then show ?thesis by (simp add: removeAny_eq)
qed

subsection \<open>The example states, evaluated\<close>

lemma finite_offsets [simp]:
  "\<not> isUnknown (Offset 3)" "\<not> isUnknown (Offset 5)" "\<not> isUnknown (Offset 100)"
  "isOffsetValid (Offset 3)" "isOffsetValid (Offset 5)" "\<not> isOffsetValid (Offset 100)"
  "block_index (Offset 3) = 3" "block_index (Offset 5) = 5"
  by (simp_all add: isUnknown_def isOffsetValid_def UNKNOWN_OFFSET_def block_index_def)

lemma table7: "table_after [7] = \<lparr>ids = [(7, 1)], idVector = [7]\<rparr>"
  by (simp add: table_after_def IdTable_init_def getNodeID_def)

lemma pos7 [simp]: "getNodePosition 7 (table_after [7]) = (0, table_after [7])"
  by (simp add: table7 getNodePosition_def getNodeID_def)

lemma table79: "table_after [7, 9] = \<lparr>ids = [(7, 1), (9, 2)], idVector = [7, 9]\<rparr>"
  by (simp add: table_after_def IdTable_init_def getNodeID_def)

lemma pos79 [simp]:
  "getNodePosition 7 (table_after [7, 9]) = (0, table_after [7, 9])"
  "getNodePosition 9 (table_after [7, 9]) = (64, table_after [7, 9])"
  by (simp_all add: table79 getNodePosition_def getNodeID_def)

lemma example_finite_eq: "example_finite = \<lparr>pointers = {3}, largePointers = {}\<rparr>"
  by (simp add: example_finite_def add_eq SmallOffsetsPointsToSet_init_def)

lemma example_unknown_eq: "example_unknown = \<lparr>pointers = {63}, largePointers = {}\<rparr>"
  by (simp add: example_unknown_def add_eq SmallOffsetsPointsToSet_init_def isUnknown_UNKNOWN)

lemma example_union_eq: "example_union = \<lparr>pointers = {3, 63}, largePointers = {}\<rparr>"
  by (auto simp: example_union_def example_finite_eq example_unknown_eq add_set_def
      SparseBitvector_set_all_def)

lemma example_unknown_has: "fst (pointsTo example_unknown (Pointer 7 Offset_UNKNOWN) (table_after [7]))"
  by (simp add: example_unknown_eq pointsTo_eq valid_UNKNOWN block_index_UNKNOWN)

lemma example_finite_no_unknown: "\<not> fst (pointsTo example_finite (Pointer 7 Offset_UNKNOWN) (table_after [7]))"
  by (simp add: example_finite_eq pointsTo_eq valid_UNKNOWN block_index_UNKNOWN)

lemma examples_satisfy_invariant:
  "unknown_excludes_finite example_finite (table_after [7]) \<and>
   unknown_excludes_finite example_unknown (table_after [7])"
proof -
  have same_table: "snd (snd (add 7 off SmallOffsetsPointsToSet_init (table_after [7]))) = table_after [7]" for off
    by (simp add: add_eq Let_def)
  have "unknown_excludes_finite (fst (snd (add 7 off SmallOffsetsPointsToSet_init (table_after [7]))))
          (table_after [7])" for off
    using add_keeps_invariant [OF ids_wf_table_after _ init_invariant, of "[7]" 7 off] init_wf
    by (simp only: same_table)
  then show ?thesis by (simp add: example_finite_def example_unknown_def)
qed

lemma union_loses_invariant: "\<not> unknown_excludes_finite example_union (table_after [7])"
proof
  assume "unknown_excludes_finite example_union (table_after [7])"
  then have "fst (pointsTo example_union (Pointer 7 Offset_UNKNOWN) (table_after [7])) \<and> \<not> isUnknown (Offset 3)
      \<longrightarrow> \<not> fst (pointsTo example_union (Pointer 7 (Offset 3)) (table_after [7]))"
    unfolding unknown_excludes_finite_def by blast
  then show False
    by (simp add: example_union_eq pointsTo_eq valid_UNKNOWN block_index_UNKNOWN)
qed

subsection \<open>Adding a pair, in every state\<close>

text \<open>
  What \<^verbatim>\<open>add(target, offset)\<close> returns and does in any state: the result is true iff
  neither the pair nor (target, UNKNOWN) was present, which is exactly when the set
  changes; with (target, UNKNOWN) present the call stops at its guard; past the guard an
  unknown offset purges the target's block and overflow entries and switches the
  UNKNOWN position on.
\<close>

lemma add_returns_whether_new:
  "case add T off S g of (r, S', g') \<Rightarrow>
     r = (\<not> fst (pointsTo S (Pointer T off) g) \<and> \<not> fst (pointsTo S (Pointer T Offset_UNKNOWN) g)) \<and>
     r = (S' \<noteq> S) \<and>
     (fst (pointsTo S (Pointer T Offset_UNKNOWN) g) \<longrightarrow> \<not> r \<and> S' = S) \<and>
     (\<not> fst (pointsTo S (Pointer T Offset_UNKNOWN) g) \<longrightarrow>
        fst (pointsTo S' (Pointer T off) g')) \<and>
     (\<not> fst (pointsTo S (Pointer T Offset_UNKNOWN) g) \<and> isUnknown off \<longrightarrow>
        r \<and>
        S' = (let S1 = fst (snd (removeAny T S g))
              in S1\<lparr>pointers := insert (fst (getPosition T Offset_UNKNOWN g)) (pointers S1)\<rparr>) \<and>
        (\<forall>k. \<not> isUnknown k \<longrightarrow> \<not> fst (pointsTo S' (Pointer T k) g')))"
proof -
  let ?p = "fst (getNodePosition T g)"
  let ?g1 = "snd (getNodePosition T g)"
  have unk: "fst (pointsTo S (Pointer T Offset_UNKNOWN) g) = (?p + 63 \<in> pointers S)"
    by (simp add: pointsTo_eq valid_UNKNOWN block_index_UNKNOWN)
  show ?thesis
  proof (cases "?p + 63 \<in> pointers S")
    case True
    then show ?thesis
      by (simp add: add_eq Let_def unk)
  next
    case no_unk: False
    show ?thesis
    proof (cases "isUnknown off")
      case True
      then have off: "off = Offset_UNKNOWN" by (simp add: isUnknown_iff)
      have neq: "S\<lparr>pointers := insert (?p + 63) (pointers S - {?p ..< ?p + 64}),
                   largePointers := {q \<in> largePointers S. target q \<noteq> T}\<rparr> \<noteq> S"
        using no_unk by (cases S) auto
      have purged: "\<not> fst (pointsTo (S\<lparr>pointers := insert (?p + 63) (pointers S - {?p ..< ?p + 64}),
                   largePointers := {q \<in> largePointers S. target q \<noteq> T}\<rparr>) (Pointer T k) ?g1)"
        if "\<not> isUnknown k" for k
        using that finite_block_index [of k]
        by (auto simp: pointsTo_eq getNodePosition_again)
      show ?thesis
        using no_unk neq purged
        by (simp add: add_eq Let_def unk off isUnknown_UNKNOWN removeAny_eq getPosition_eq
            block_index_UNKNOWN pointsTo_eq valid_UNKNOWN getNodePosition_again)
    next
      case fin: False
      show ?thesis
      proof (cases "isOffsetValid off")
        case True
        have "(S\<lparr>pointers := insert (?p + block_index off) (pointers S)\<rparr> \<noteq> S)
                = (?p + block_index off \<notin> pointers S)"
          by (cases S) auto
        then show ?thesis
          using no_unk fin True
          by (simp add: add_eq Let_def pointsTo_eq getNodePosition_again valid_UNKNOWN block_index_UNKNOWN)
      next
        case False
        have "(S\<lparr>largePointers := insert (Pointer T off) (largePointers S)\<rparr> \<noteq> S)
                = (Pointer T off \<notin> largePointers S)"
          by (cases S) auto
        then show ?thesis
          using no_unk fin False
          by (simp add: add_eq Let_def pointsTo_eq valid_UNKNOWN block_index_UNKNOWN)
      qed
    qed
  qed
qed

text \<open>
  After \<^verbatim>\<open>add(T, UNKNOWN)\<close> no finite offset of T is left, provided none stood beside
  (T, UNKNOWN) before; in particular in every state that has the data model's invariant.
\<close>

lemma add_unknown_purges:
  assumes "fst (pointsTo S (Pointer T Offset_UNKNOWN) g) \<longrightarrow>
             (\<forall>k. \<not> isUnknown k \<longrightarrow> \<not> fst (pointsTo S (Pointer T k) g))"
  shows "case add T Offset_UNKNOWN S g of (r, S', g') \<Rightarrow>
           (\<forall>k. \<not> isUnknown k \<longrightarrow>
              fst (mayPointTo S' (Pointer T k) g') \<and> \<not> fst (pointsTo S' (Pointer T k) g'))"
proof -
  let ?p = "fst (getNodePosition T g)"
  show ?thesis
  proof (cases "?p + 63 \<in> pointers S")
    case True
    then have "\<not> fst (pointsTo S (Pointer T k) g)" if "\<not> isUnknown k" for k
      using assms that by (simp add: pointsTo_eq valid_UNKNOWN block_index_UNKNOWN)
    then have "\<not> fst (pointsTo S (Pointer T k) (snd (getNodePosition T g)))" if "\<not> isUnknown k" for k
      using that by (simp add: pointsTo_after_lookup)
    moreover have "fst (pointsTo S (Pointer T Offset_UNKNOWN) (snd (pointsTo S (Pointer T k) (snd (getNodePosition T g)))))" for k
      using True by (simp add: pointsTo_eq getNodePosition_again valid_UNKNOWN block_index_UNKNOWN)
    ultimately show ?thesis
      using True
      by (simp add: add_eq Let_def mayPointTo_def split_beta)
  next
    case False
    have "\<not> fst (pointsTo (S\<lparr>pointers := insert (?p + 63) (pointers S - {?p ..< ?p + 64}),
                   largePointers := {q \<in> largePointers S. target q \<noteq> T}\<rparr>) (Pointer T k) (snd (getNodePosition T g)))"
        if "\<not> isUnknown k" for k
        using that finite_block_index [of k]
        by (auto simp: pointsTo_eq getNodePosition_again)
    then show ?thesis
      using False
      by (simp add: add_eq Let_def isUnknown_UNKNOWN mayPointTo_def split_beta)
         (simp add: pointsTo_eq getNodePosition_again valid_UNKNOWN block_index_UNKNOWN)
  qed
qed

lemma add_unknown_purges_under_invariant:
  assumes "unknown_excludes_finite S g"
  shows "case add T Offset_UNKNOWN S g of (r, S', g') \<Rightarrow>
           (\<forall>k. \<not> isUnknown k \<longrightarrow>
              fst (mayPointTo S' (Pointer T k) g') \<and> \<not> fst (pointsTo S' (Pointer T k) g'))"
  using assms by (intro add_unknown_purges) (simp add: unknown_excludes_finite_def)

lemma add_purges_under_invariant:
  assumes "unknown_excludes_finite S g" "isUnknown off"
  shows "case add T off S g of (r, S', g') \<Rightarrow>
           r = (S' \<noteq> S) \<and>
           fst (pointsTo S' (Pointer T Offset_UNKNOWN) g') \<and>
           (\<forall>k. \<not> isUnknown k \<longrightarrow> \<not> fst (pointsTo S' (Pointer T k) g'))"
proof -
  have off: "off = Offset_UNKNOWN" using assms(2) by (simp add: isUnknown_iff)
  note a = add_returns_whether_new [where T = T and off = Offset_UNKNOWN and S = S and g = g, unfolded split_beta]
  note b = add_unknown_purges_under_invariant [OF assms(1), where T = T, unfolded split_beta]
  have present: "fst (pointsTo (fst (snd (add T Offset_UNKNOWN S g))) (Pointer T Offset_UNKNOWN) (snd (snd (add T Offset_UNKNOWN S g))))"
  proof (cases "fst (pointsTo S (Pointer T Offset_UNKNOWN) g)")
    case True
    then have "fst (snd (add T Offset_UNKNOWN S g)) = S" using a by blast
    moreover have "snd (snd (add T Offset_UNKNOWN S g)) = snd (getNodePosition T g)"
      by (simp add: add_eq Let_def)
    ultimately show ?thesis using True by (simp add: pointsTo_after_lookup)
  next
    case False
    then show ?thesis using a by blast
  qed
  show ?thesis unfolding off split_beta using a b present by blast
qed

section \<open>The claims\<close>

subsection \<open>The points-to set\<close>

text \<open>
  C1. Claim: every operation of the set (adding a pair, uniting another set into it,
  \<^verbatim>\<open>remove\<close>, \<^verbatim>\<open>removeAny\<close>) preserves the invariant that a set containing (T, UNKNOWN)
  contains no finite-offset pair (T, k).

  The union does not. \<^verbatim>\<open>add(target, off)\<close> normalises (it refuses a finite offset beside
  UNKNOWN and purges the finite offsets before it inserts UNKNOWN), but
  \<^verbatim>\<open>add(const SmallOffsetsPointsToSet&)\<close> unites the two bit indexes as they are. With
  \<open>example_finite\<close> holding only (7, 3) and \<open>example_unknown\<close> holding only (7, UNKNOWN),
  both of which satisfy the invariant (\<open>examples_satisfy_invariant\<close>), their union answers
  \<^verbatim>\<open>pointsTo\<close> with true for (7, UNKNOWN) and for the finite pair (7, 3) at once
  (\<open>union_loses_invariant\<close>). Adding a pair, \<^verbatim>\<open>remove\<close> and \<^verbatim>\<open>removeAny\<close> do keep the
  invariant (\<open>add_keeps_invariant\<close>, \<open>remove_Pointer_keeps_invariant\<close>,
  \<open>removeAny_keeps_invariant\<close>).
\<close>

theorem union_breaks_invariant:
  "fst (pointsTo example_union (Pointer 7 Offset_UNKNOWN) (table_after [7])) \<and>
   \<not> isUnknown (Offset 3) \<and>
   fst (pointsTo example_union (Pointer 7 (Offset 3)) (table_after [7])) \<and>
   \<not> fst (pointsTo example_finite (Pointer 7 Offset_UNKNOWN) (table_after [7])) \<and>
   \<not> fst (pointsTo example_unknown (Pointer 7 (Offset 3)) (table_after [7]))"
  by (simp add: example_union_eq example_finite_eq example_unknown_eq pointsTo_eq valid_UNKNOWN block_index_UNKNOWN)

text \<open>
  C4. Claim: on every state, \<^verbatim>\<open>add(target, offset)\<close> returns true iff the pair was not
  already present after normalisation; with (target, UNKNOWN) present a finite-offset add
  changes nothing and returns false; an UNKNOWN-offset add first purges all finite entries
  of the target, then inserts (target, UNKNOWN), and returns true iff anything changed.

  In every state that has the invariant the code does this (\<open>add_returns_whether_new\<close>,
  \<open>add_purges_under_invariant\<close>). In \<open>example_union\<close>, the state the union leaves with
  (7, 3) beside (7, UNKNOWN), it does not: \<^verbatim>\<open>add(7, UNKNOWN)\<close> stops at its guard,
  returns false and leaves the set as it is, so the finite entry (7, 3) is not purged,
  although the \<^verbatim>\<open>removeAny(7)\<close> that the unknown-offset path runs would have changed the
  set.
\<close>

theorem add_unknown_after_union_stops_at_guard:
  "add 7 Offset_UNKNOWN example_union (table_after [7]) = (False, example_union, table_after [7]) \<and>
   isUnknown Offset_UNKNOWN \<and> \<not> isUnknown (Offset 3) \<and>
   fst (pointsTo example_union (Pointer 7 (Offset 3)) (table_after [7])) \<and>
   fst (removeAny 7 example_union (table_after [7])) \<and>
   fst (snd (removeAny 7 example_union (table_after [7]))) \<noteq> example_union"
  by (simp add: example_union_eq add_eq removeAny_eq pointsTo_eq isUnknown_UNKNOWN)
     (rule bexI [of _ 3], simp_all)

text \<open>
  C5. Claim: for every pointer \<open>p\<close> and every state, \<^verbatim>\<open>add(p)\<close> followed by
  \<^verbatim>\<open>pointsTo(p)\<close> returns true, and \<^verbatim>\<open>remove(p)\<close> after \<^verbatim>\<open>add(p)\<close> makes
  \<^verbatim>\<open>pointsTo(p)\<close> false.

  The first half fails where \<^verbatim>\<open>add\<close> is guarded: with (7, UNKNOWN) in the set, adding the
  finite pair (7, 5) is a no-op, and \<^verbatim>\<open>pointsTo((7, 5))\<close> is false afterwards.
\<close>

theorem add_then_pointsTo_counterexample:
  "\<not> isUnknown (Offset 5) \<and>
   \<not> fst (pointsTo (fst (snd (add_Pointer (Pointer 7 (Offset 5)) example_unknown (table_after [7]))))
        (Pointer 7 (Offset 5))
        (snd (snd (add_Pointer (Pointer 7 (Offset 5)) example_unknown (table_after [7])))))"
  by (simp add: example_unknown_eq add_Pointer_def add_eq pointsTo_eq)

text \<open>
  C5, as amended. After \<^verbatim>\<open>add(p)\<close>, \<^verbatim>\<open>mayPointTo(p)\<close> returns true in every state, and
  \<^verbatim>\<open>pointsTo(p)\<close> returns true whenever the offset of \<open>p\<close> is UNKNOWN or the set did not
  contain (target of \<open>p\<close>, UNKNOWN) before the call. When the set did contain
  (target of \<open>p\<close>, UNKNOWN), the add is a no-op: it returns false, the set is the one
  before the call, and \<^verbatim>\<open>pointsTo(p)\<close> answers what it answered before. In every state,
  \<^verbatim>\<open>remove(p)\<close> after \<^verbatim>\<open>add(p)\<close> makes \<^verbatim>\<open>pointsTo(p)\<close> false.
\<close>

theorem add_then_query_then_remove:
  "case add_Pointer (Pointer T off) S g of (r, S1, g1) \<Rightarrow>
     fst (mayPointTo S1 (Pointer T off) g1) \<and>
     (isUnknown off \<or> \<not> fst (pointsTo S (Pointer T Offset_UNKNOWN) g)
        \<longrightarrow> fst (pointsTo S1 (Pointer T off) g1)) \<and>
     (fst (pointsTo S (Pointer T Offset_UNKNOWN) g)
        \<longrightarrow> \<not> r \<and> S1 = S \<and>
            fst (pointsTo S1 (Pointer T off) g1) = fst (pointsTo S (Pointer T off) g)) \<and>
     (case remove_Pointer (Pointer T off) S1 g1 of (r2, S2, g2) \<Rightarrow>
        \<not> fst (pointsTo S2 (Pointer T off) g2))"
proof -
  let ?p = "fst (getNodePosition T g)"
  show ?thesis
  proof (cases "?p + 63 \<in> pointers S")
    case True
    then show ?thesis
      by (simp add: add_Pointer_def add_eq Let_def mayPointTo_def pointsTo_eq getNodePosition_again
          remove_Pointer_eq valid_UNKNOWN block_index_UNKNOWN split_beta isUnknown_iff)
  next
    case False
    then show ?thesis
      by (simp add: add_Pointer_def add_eq Let_def mayPointTo_def pointsTo_eq getNodePosition_again
          remove_Pointer_eq valid_UNKNOWN block_index_UNKNOWN split_beta isUnknown_iff)
  qed
qed

theorem add_then_query_then_remove_witness:
  "\<not> fst (pointsTo SmallOffsetsPointsToSet_init (Pointer 7 Offset_UNKNOWN) (table_after [7])) \<and>
   fst (pointsTo (fst (snd (add_Pointer (Pointer 7 (Offset 5)) SmallOffsetsPointsToSet_init (table_after [7]))))
        (Pointer 7 (Offset 5))
        (snd (snd (add_Pointer (Pointer 7 (Offset 5)) SmallOffsetsPointsToSet_init (table_after [7]))))) \<and>
   isUnknown Offset_UNKNOWN \<and>
   fst (pointsTo (fst (snd (add_Pointer (Pointer 7 Offset_UNKNOWN) example_unknown (table_after [7]))))
        (Pointer 7 Offset_UNKNOWN)
        (snd (snd (add_Pointer (Pointer 7 Offset_UNKNOWN) example_unknown (table_after [7]))))) \<and>
   fst (pointsTo example_unknown (Pointer 7 Offset_UNKNOWN) (table_after [7])) \<and>
   \<not> fst (add_Pointer (Pointer 7 (Offset 5)) example_unknown (table_after [7])) \<and>
   fst (snd (add_Pointer (Pointer 7 (Offset 5)) example_unknown (table_after [7]))) = example_unknown \<and>
   fst (pointsTo (fst (snd (add_Pointer (Pointer 7 (Offset 5)) example_unknown (table_after [7]))))
        (Pointer 7 (Offset 5))
        (snd (snd (add_Pointer (Pointer 7 (Offset 5)) example_unknown (table_after [7])))))
     = fst (pointsTo example_unknown (Pointer 7 (Offset 5)) (table_after [7]))"
proof -
  have empty: "\<not> fst (pointsTo SmallOffsetsPointsToSet_init (Pointer 7 Offset_UNKNOWN) (table_after [7]))"
    by (simp add: SmallOffsetsPointsToSet_init_def pointsTo_eq valid_UNKNOWN block_index_UNKNOWN)
  have a: "fst (pointsTo (fst (snd (add_Pointer (Pointer 7 (Offset 5)) SmallOffsetsPointsToSet_init (table_after [7]))))
        (Pointer 7 (Offset 5))
        (snd (snd (add_Pointer (Pointer 7 (Offset 5)) SmallOffsetsPointsToSet_init (table_after [7])))))"
    using add_then_query_then_remove [where T = 7 and off = "Offset 5"
      and S = SmallOffsetsPointsToSet_init and g = "table_after [7]", unfolded split_beta] empty
    by blast
  have b: "fst (pointsTo (fst (snd (add_Pointer (Pointer 7 Offset_UNKNOWN) example_unknown (table_after [7]))))
        (Pointer 7 Offset_UNKNOWN)
        (snd (snd (add_Pointer (Pointer 7 Offset_UNKNOWN) example_unknown (table_after [7])))))"
    using add_then_query_then_remove [where T = 7 and off = Offset_UNKNOWN
      and S = example_unknown and g = "table_after [7]", unfolded split_beta] isUnknown_UNKNOWN
    by blast
  have c: "\<not> fst (add_Pointer (Pointer 7 (Offset 5)) example_unknown (table_after [7])) \<and>
   fst (snd (add_Pointer (Pointer 7 (Offset 5)) example_unknown (table_after [7]))) = example_unknown \<and>
   fst (pointsTo (fst (snd (add_Pointer (Pointer 7 (Offset 5)) example_unknown (table_after [7]))))
        (Pointer 7 (Offset 5))
        (snd (snd (add_Pointer (Pointer 7 (Offset 5)) example_unknown (table_after [7])))))
     = fst (pointsTo example_unknown (Pointer 7 (Offset 5)) (table_after [7]))"
    using add_then_query_then_remove [where T = 7 and off = "Offset 5"
      and S = example_unknown and g = "table_after [7]", unfolded split_beta] example_unknown_has
    by blast
  show ?thesis using empty a b c example_unknown_has isUnknown_UNKNOWN by blast
qed

text \<open>
  C6. Claim: for every target T and every state, after \<^verbatim>\<open>add(T, UNKNOWN)\<close> the query
  \<^verbatim>\<open>mayPointTo((T, k))\<close> is true and \<^verbatim>\<open>pointsTo((T, k))\<close> is false for every finite k.

  In every state that has the invariant this holds (\<open>add_unknown_purges_under_invariant\<close>).
  It fails in \<open>example_union\<close>, the state the union leaves with (7, 3) beside
  (7, UNKNOWN): \<^verbatim>\<open>add(7, UNKNOWN)\<close> returns at its guard before anything is purged, and
  \<^verbatim>\<open>pointsTo((7, 3))\<close> is still true afterwards.
\<close>

theorem add_unknown_after_union_keeps_finite:
  "\<not> isUnknown (Offset 3) \<and>
   fst (pointsTo (fst (snd (add 7 Offset_UNKNOWN example_union (table_after [7]))))
          (Pointer 7 (Offset 3))
          (snd (snd (add 7 Offset_UNKNOWN example_union (table_after [7])))))"
  by (simp add: example_union_eq add_eq pointsTo_eq)

text \<open>
  C8. Identities are handed out lazily from one table shared by all sets. After the
  nodes \<open>ns\<close> have been referenced, starting from the empty table: the nodes on record
  are exactly those referenced; a node has identity \<open>i\<close> iff \<open>i\<close> is between 1 and the
  table's size and \<^verbatim>\<open>idVector[i - 1]\<close> is that node; looking up a node that has an identity
  returns it and leaves the table alone; a node without one receives the table's size
  plus one, which is above every identity in use, is appended to \<^verbatim>\<open>idVector\<close>, and every
  earlier identity stays; and the first node referenced has identity 1.
\<close>

theorem identity_table_lazy_dense:
  "let g = table_after ns in
     set (idVector g) = set ns \<and>
     (\<forall>t i. map_of (ids g) t = Some i \<longleftrightarrow> 1 \<le> i \<and> i \<le> length (idVector g) \<and> idVector g ! (i - 1) = t) \<and>
     (\<forall>t i. map_of (ids g) t = Some i \<longrightarrow> getNodeID t g = (i, g)) \<and>
     (\<forall>t. map_of (ids g) t = None \<longrightarrow>
        fst (getNodeID t g) = length (idVector g) + 1 \<and>
        idVector (snd (getNodeID t g)) = idVector g @ [t] \<and>
        (\<forall>t' i. map_of (ids g) t' = Some i \<longrightarrow>
           i < fst (getNodeID t g) \<and> map_of (ids (snd (getNodeID t g))) t' = Some i)) \<and>
     (ns \<noteq> [] \<longrightarrow> map_of (ids g) (hd ns) = Some 1)"
proof -
  let ?g = "table_after ns"
  have wf: "ids_wf ?g" by (rule ids_wf_table_after)
  have nodes: "set (idVector ?g) = set ns"
    using table_after_nodes [OF ids_wf_init, of ns] by (simp add: table_after_def IdTable_init_def)
  have lookup: "map_of (ids ?g) t = Some i \<longleftrightarrow> 1 \<le> i \<and> i \<le> length (idVector ?g) \<and> idVector ?g ! (i - 1) = t"
    for t i by (rule ids_wf_lookup [OF wf])
  have stable: "getNodeID t ?g = (i, ?g)" if "map_of (ids ?g) t = Some i" for t i
    using that by (rule getNodeID_known)
  have fresh: "fst (getNodeID t ?g) = length (idVector ?g) + 1 \<and>
        idVector (snd (getNodeID t ?g)) = idVector ?g @ [t] \<and>
        (\<forall>t' i. map_of (ids ?g) t' = Some i \<longrightarrow>
           i < fst (getNodeID t ?g) \<and> map_of (ids (snd (getNodeID t ?g))) t' = Some i)"
    if none: "map_of (ids ?g) t = None" for t
  proof -
    have n: "fst (getNodeID t ?g) = length (idVector ?g) + 1"
      using wf none by (rule getNodeID_unassigned)
    have v: "idVector (snd (getNodeID t ?g)) = idVector ?g @ [t]"
      using none by (simp add: getNodeID_fresh)
    have "i < fst (getNodeID t ?g) \<and> map_of (ids (snd (getNodeID t ?g))) t' = Some i"
      if "map_of (ids ?g) t' = Some i" for t' i
      using that lookup [of t' i] n by (simp add: getNodeID_keeps)
    with n v show ?thesis by blast
  qed
  have first: "map_of (ids ?g) (hd ns) = Some 1" if "ns \<noteq> []"
    using that table_after_first by (cases ns) simp_all
  show ?thesis
    unfolding Let_def using nodes lookup stable fresh first by blast
qed

theorem identity_table_lazy_dense_witness:
  "map_of (ids (table_after [7, 9, 7])) 9 = Some 2 \<and>
   idVector (table_after [7, 9, 7]) ! (2 - 1) = 9 \<and>
   getNodeID 9 (table_after [7, 9, 7]) = (2, table_after [7, 9, 7]) \<and>
   map_of (ids (table_after [7, 9, 7])) 4 = None \<and>
   fst (getNodeID 4 (table_after [7, 9, 7])) = length (idVector (table_after [7, 9, 7])) + 1 \<and>
   fst (getNodeID 4 (table_after [7, 9, 7])) = 3 \<and>
   map_of (ids (snd (getNodeID 4 (table_after [7, 9, 7])))) 9 = Some 2 \<and>
   [7, 9, 7] \<noteq> [] \<and>
   map_of (ids (table_after [7, 9, 7])) (hd [7, 9, 7]) = Some 1"
proof -
  have t: "table_after [7, 9, 7] = \<lparr>ids = [(7, 1), (9, 2)], idVector = [7, 9]\<rparr>"
    by (simp add: table_after_def IdTable_init_def getNodeID_def)
  have known: "map_of (ids (table_after [7, 9, 7])) 9 = Some 2"
    and unknown: "map_of (ids (table_after [7, 9, 7])) 4 = None"
    and len: "length (idVector (table_after [7, 9, 7])) = 2"
    by (simp_all add: t)
  note th = identity_table_lazy_dense [of "[7, 9, 7]", unfolded Let_def]
  have a: "idVector (table_after [7, 9, 7]) ! (2 - 1) = 9" using th known by blast
  have b: "getNodeID 9 (table_after [7, 9, 7]) = (2, table_after [7, 9, 7])" using th known by blast
  have c: "fst (getNodeID 4 (table_after [7, 9, 7])) = length (idVector (table_after [7, 9, 7])) + 1 \<and>
      map_of (ids (snd (getNodeID 4 (table_after [7, 9, 7])))) 9 = Some 2"
    using th known unknown by blast
  have d: "map_of (ids (table_after [7, 9, 7])) (hd [7, 9, 7]) = Some 1" using th by blast
  show ?thesis using known unknown a b c d len by simp
qed

text \<open>
  C9. In a state whose table satisfies its invariant and whose bits all lie in blocks
  of identities handed out, \<^verbatim>\<open>remove(Pointer(T, UNKNOWN))\<close> returns whether (T, UNKNOWN) was
  present, leaves it absent, and changes the answer of \<^verbatim>\<open>pointsTo\<close> for no other pointer:
  the finite entries of T and every entry of another target stay as they were. It is
  \<^verbatim>\<open>removeAny(T)\<close> that leaves no entry of T at all.
\<close>

theorem remove_unknown_only:
  assumes wf: "ids_wf g" and bits: "bits_assigned S g"
  shows "(case remove_Pointer (Pointer T Offset_UNKNOWN) S g of (r, S', g') \<Rightarrow>
            r = fst (pointsTo S (Pointer T Offset_UNKNOWN) g) \<and>
            \<not> fst (pointsTo S' (Pointer T Offset_UNKNOWN) g') \<and>
            (\<forall>p. p \<noteq> Pointer T Offset_UNKNOWN \<longrightarrow> fst (pointsTo S' p g') = fst (pointsTo S p g))) \<and>
         (case removeAny T S g of (r, S', g') \<Rightarrow>
            (\<forall>off. \<not> fst (pointsTo S' (Pointer T off) g')))"
proof -
  let ?g1 = "snd (getNodeID T g)"
  let ?P = "(fst (getNodeID T g) - 1) * 64"
  let ?S1 = "S\<lparr>pointers := pointers S - {?P + 63}\<rparr>"
  have rem: "remove_Pointer (Pointer T Offset_UNKNOWN) S g = (?P + 63 \<in> pointers S, ?S1, ?g1)"
    by (simp add: remove_Pointer_eq valid_UNKNOWN block_index_UNKNOWN getNodePosition_eq)
  have wf1: "ids_wf ?g1" using wf by (rule ids_wf_getNodeID)
  have gone: "\<not> fst (pointsTo ?S1 (Pointer T Offset_UNKNOWN) ?g1)"
    by (simp add: pointsTo_eq valid_UNKNOWN block_index_UNKNOWN getNodePosition_eq getNodeID_again)
  have frame: "fst (pointsTo ?S1 p ?g1) = fst (pointsTo S p g)" if ne: "p \<noteq> Pointer T Offset_UNKNOWN" for p
  proof (cases p)
    case (Pointer T' off)
    have "fst (pointsTo ?S1 p ?g1) = fst (pointsTo S p ?g1)"
    proof (cases "isOffsetValid off")
      case False
      then show ?thesis by (simp add: Pointer pointsTo_eq)
    next
      case True
      have "(fst (getNodeID T' ?g1) - 1) * 64 + block_index off \<noteq> ?P + 63"
      proof (cases "T' = T")
        case True
        then have "off \<noteq> Offset_UNKNOWN" using ne Pointer by simp
        then have "block_index off \<noteq> 63"
          using block_index_inj [OF \<open>isOffsetValid off\<close> valid_UNKNOWN] by (simp add: block_index_UNKNOWN)
        then show ?thesis using True by (simp add: getNodeID_again)
      next
        case False
        have "fst (getNodeID T' ?g1) \<noteq> fst (getNodeID T g)"
          using wf False by (rule getNodeID_separate)
        moreover have "1 \<le> fst (getNodeID T' ?g1)" "1 \<le> fst (getNodeID T g)"
          using getNodeID_positive [OF wf1] getNodeID_positive [OF wf] by simp_all
        moreover have "block_index off < 64" using True by (rule block_index_less)
        ultimately show ?thesis by (rule block_separate) simp
      qed
      then show ?thesis using True by (simp add: Pointer pointsTo_eq getNodePosition_eq)
    qed
    also have "\<dots> = fst (pointsTo S p g)"
      using wf bits by (rule pointsTo_table_extended)
    finally show ?thesis .
  qed
  have "\<not> fst (pointsTo (fst (snd (removeAny T S g))) (Pointer T off) (snd (snd (removeAny T S g))))" for off
    by (rule removeAny_purges)
  then show ?thesis
    using gone frame
    by (simp add: rem split_beta pointsTo_eq [of S T Offset_UNKNOWN] valid_UNKNOWN
        block_index_UNKNOWN getNodePosition_eq)
qed

theorem remove_unknown_only_witness:
  "ids_wf (table_after [7, 9]) \<and>
   bits_assigned \<lparr>pointers = {3, 63, 69}, largePointers = {Pointer 7 (Offset 100)}\<rparr> (table_after [7, 9]) \<and>
   fst (remove_Pointer (Pointer 7 Offset_UNKNOWN)
          \<lparr>pointers = {3, 63, 69}, largePointers = {Pointer 7 (Offset 100)}\<rparr> (table_after [7, 9])) \<and>
   fst (pointsTo (fst (snd (remove_Pointer (Pointer 7 Offset_UNKNOWN)
          \<lparr>pointers = {3, 63, 69}, largePointers = {Pointer 7 (Offset 100)}\<rparr> (table_after [7, 9]))))
        (Pointer 7 (Offset 3))
        (snd (snd (remove_Pointer (Pointer 7 Offset_UNKNOWN)
          \<lparr>pointers = {3, 63, 69}, largePointers = {Pointer 7 (Offset 100)}\<rparr> (table_after [7, 9]))))) \<and>
   fst (pointsTo (fst (snd (remove_Pointer (Pointer 7 Offset_UNKNOWN)
          \<lparr>pointers = {3, 63, 69}, largePointers = {Pointer 7 (Offset 100)}\<rparr> (table_after [7, 9]))))
        (Pointer 9 (Offset 5))
        (snd (snd (remove_Pointer (Pointer 7 Offset_UNKNOWN)
          \<lparr>pointers = {3, 63, 69}, largePointers = {Pointer 7 (Offset 100)}\<rparr> (table_after [7, 9]))))) \<and>
   \<not> fst (pointsTo (fst (snd (removeAny 7
          \<lparr>pointers = {3, 63, 69}, largePointers = {Pointer 7 (Offset 100)}\<rparr> (table_after [7, 9]))))
        (Pointer 7 (Offset 3))
        (snd (snd (removeAny 7
          \<lparr>pointers = {3, 63, 69}, largePointers = {Pointer 7 (Offset 100)}\<rparr> (table_after [7, 9])))))"
proof -
  let ?S = "\<lparr>pointers = {3, 63, 69}, largePointers = {Pointer 7 (Offset 100)}\<rparr>"
  let ?g = "table_after [7, 9]"
  have wf: "ids_wf ?g" by (rule ids_wf_table_after)
  have bits: "bits_assigned ?S ?g" by (simp add: bits_assigned_def table79)
  note t = remove_unknown_only [OF wf bits, where T = 7, unfolded split_beta]
  have before: "fst (pointsTo ?S (Pointer 7 Offset_UNKNOWN) ?g)"
    "fst (pointsTo ?S (Pointer 7 (Offset 3)) ?g)" "fst (pointsTo ?S (Pointer 9 (Offset 5)) ?g)"
    by (simp_all add: pointsTo_eq valid_UNKNOWN block_index_UNKNOWN)
  have ne: "Pointer 7 (Offset 3) \<noteq> Pointer 7 Offset_UNKNOWN" "Pointer 9 (Offset 5) \<noteq> Pointer 7 Offset_UNKNOWN"
    by (simp_all add: Offset_UNKNOWN_def UNKNOWN_OFFSET_def)
  show ?thesis using t wf bits before ne by metis
qed

subsection \<open>Nodes of the reaching-definitions graph\<close>

text \<open>
  C2. Claim: \<^verbatim>\<open>n.defines(T, o)\<close> is true iff a site of \<open>n\<close>'s \<^verbatim>\<open>defs\<close> or \<^verbatim>\<open>overwrites\<close>
  covers (T, o); for \<open>o\<close> = UNKNOWN, iff a site with target T is in either collection.

  The branch for a finite offset searches both collections; the branch for the unknown
  offset searches \<^verbatim>\<open>defs\<close> only. A node whose one site for target 5 was added with
  \<^verbatim>\<open>addOverwrites\<close> does not define (5, UNKNOWN), whatever \<^verbatim>\<open>inRange\<close> is, although the
  site is among its overwrites; the same site added as a weak definition is found.
\<close>

theorem defines_unknown_skips_overwrites:
  "\<not> RDNode_defines inRange (addOverwrites (DefSite 5 (Offset 0) (Offset 4)) (RDNode_ctor 1 STORE m)) 5 Offset_UNKNOWN \<and>
   isOverwritten (addOverwrites (DefSite 5 (Offset 0) (Offset 4)) (RDNode_ctor 1 STORE m)) (DefSite 5 (Offset 0) (Offset 4)) \<and>
   RDNode_defines inRange (addDef update 1 (DefSite 5 (Offset 0) (Offset 4)) False (RDNode_ctor 1 STORE m)) 5 Offset_UNKNOWN"
  by (simp add: RDNode_defines_def addOverwrites_def addDef_def RDNode_ctor_def isOverwritten_def
      isUnknown_def Offset_UNKNOWN_def)

text \<open>
  C3. Claim: \<^verbatim>\<open>getOverwrites()\<close> returns the node's \<^verbatim>\<open>overwrites\<close> through both
  overloads.

  The \<^verbatim>\<open>const\<close> overload returns \<^verbatim>\<open>defs\<close>. After \<^verbatim>\<open>addOverwrites(ds)\<close> on a fresh node the
  site is in what the mutable overload returns and not in what the \<^verbatim>\<open>const\<close> one returns;
  a site added only by a weak \<^verbatim>\<open>addDef(ds)\<close> is in what the \<^verbatim>\<open>const\<close> overload returns.
\<close>

theorem getOverwrites_const_returns_defs:
  "ds \<in> getOverwrites (addOverwrites ds (RDNode_ctor 1 STORE m)) \<and>
   ds \<notin> getOverwrites_const (addOverwrites ds (RDNode_ctor 1 STORE m)) \<and>
   ds \<in> getOverwrites_const (addDef update 1 ds False (RDNode_ctor 1 STORE m))"
  by (simp add: getOverwrites_def getOverwrites_const_def addOverwrites_def addDef_def RDNode_ctor_def)

subsection \<open>Constructing the analysis\<close>

text \<open>
  C7. With assertions compiled in, constructing the analysis from a graph whose root is
  null fails with the assertion "Root cannot be null"; from a graph with a root and
  options whose \<^verbatim>\<open>maxSetSize\<close> is 0 it fails with "The set size must be at least 1"; with a
  root and \<^verbatim>\<open>maxSetSize\<close> at least 1 no assertion fires and the object holds the graph and
  the options. Construction succeeds in no other case.
\<close>

theorem analysis_construction_asserts:
  "(root G = None \<longrightarrow>
      ReachingDefinitionsAnalysis_ctor G opts = Inl (AssertionFailure ''Root cannot be null'')) \<and>
   (root G \<noteq> None \<and> maxSetSize opts = 0 \<longrightarrow>
      ReachingDefinitionsAnalysis_ctor G opts = Inl (AssertionFailure ''The set size must be at least 1'')) \<and>
   (root G \<noteq> None \<and> 1 \<le> maxSetSize opts \<longrightarrow>
      ReachingDefinitionsAnalysis_ctor G opts = Inr \<lparr>graph = G, dfsnum = 0, options = opts\<rparr>) \<and>
   ((\<exists>a. ReachingDefinitionsAnalysis_ctor G opts = Inr a) \<longleftrightarrow> root G \<noteq> None \<and> 1 \<le> maxSetSize opts)"
  by (auto simp: ReachingDefinitionsAnalysis_ctor_def ReachingDefinitionsGraph_move_def getRoot_def
      Let_def split: if_splits)

theorem analysis_construction_asserts_witness:
  "root \<lparr>lastNodeID = 2, root = None, bblocks = [], nodes = [10, 11]\<rparr> = None \<and>
   ReachingDefinitionsAnalysis_ctor \<lparr>lastNodeID = 2, root = None, bblocks = [], nodes = [10, 11]\<rparr> \<lparr>maxSetSize = 3\<rparr>
     = Inl (AssertionFailure ''Root cannot be null'') \<and>
   root \<lparr>lastNodeID = 2, root = Some 10, bblocks = [], nodes = [10, 11]\<rparr> \<noteq> None \<and>
   maxSetSize \<lparr>maxSetSize = 0\<rparr> = 0 \<and>
   ReachingDefinitionsAnalysis_ctor \<lparr>lastNodeID = 2, root = Some 10, bblocks = [], nodes = [10, 11]\<rparr> \<lparr>maxSetSize = 0\<rparr>
     = Inl (AssertionFailure ''The set size must be at least 1'') \<and>
   1 \<le> maxSetSize \<lparr>maxSetSize = 3\<rparr> \<and>
   ReachingDefinitionsAnalysis_ctor \<lparr>lastNodeID = 2, root = Some 10, bblocks = [], nodes = [10, 11]\<rparr> \<lparr>maxSetSize = 3\<rparr>
     = Inr \<lparr>graph = \<lparr>lastNodeID = 2, root = Some 10, bblocks = [], nodes = [10, 11]\<rparr>, dfsnum = 0,
            options = \<lparr>maxSetSize = 3\<rparr>\<rparr>"
  using analysis_construction_asserts [of "\<lparr>lastNodeID = 2, root = None, bblocks = [], nodes = [10, 11]\<rparr>" "\<lparr>maxSetSize = 3\<rparr>"]
    analysis_construction_asserts [of "\<lparr>lastNodeID = 2, root = Some 10, bblocks = [], nodes = [10, 11]\<rparr>" "\<lparr>maxSetSize = 0\<rparr>"]
    analysis_construction_asserts [of "\<lparr>lastNodeID = 2, root = Some 10, bblocks = [], nodes = [10, 11]\<rparr>" "\<lparr>maxSetSize = 3\<rparr>"]
  by simp

subsection \<open>Offset arithmetic\<close>

text \<open>
  C10. For finite offsets \<open>a\<close> and \<open>b\<close>, \<^verbatim>\<open>a + b\<close> holds the 64-bit sum of the two
  fields, whose value is \<open>(a + b) mod 2 ^ 64\<close>, and it is UNKNOWN exactly when that value
  is \<open>2 ^ 64 - 1\<close>; if either operand is UNKNOWN, so is the result; and there are finite
  offsets whose sum is UNKNOWN.
\<close>

theorem Offset_plus_wraps:
  "(\<not> isUnknown a \<and> \<not> isUnknown b \<longrightarrow>
      offset (Offset_plus a b) = offset a + offset b \<and>
      unat (offset (Offset_plus a b)) = (unat (offset a) + unat (offset b)) mod 2 ^ 64 \<and>
      (isUnknown (Offset_plus a b) \<longleftrightarrow> (unat (offset a) + unat (offset b)) mod 2 ^ 64 = 2 ^ 64 - 1)) \<and>
   (isUnknown a \<or> isUnknown b \<longrightarrow> isUnknown (Offset_plus a b)) \<and>
   (\<exists>c d. \<not> isUnknown c \<and> \<not> isUnknown d \<and> isUnknown (Offset_plus c d))"
proof -
  have "\<not> isUnknown (Offset 18446744073709551614) \<and> \<not> isUnknown (Offset 1) \<and>
        isUnknown (Offset_plus (Offset 18446744073709551614) (Offset 1))"
    by (simp add: isUnknown_def Offset_plus_def UNKNOWN_OFFSET_def)
  then have "\<exists>c d. \<not> isUnknown c \<and> \<not> isUnknown d \<and> isUnknown (Offset_plus c d)"
    by blast
  then show ?thesis
    by (simp add: isUnknown_def Offset_plus_def unat_eq_UNKNOWN unat_word_ariths)
qed

theorem Offset_plus_wraps_witness:
  "\<not> isUnknown (Offset 1) \<and>
   unat (offset (Offset_plus (Offset 18446744073709551614) (Offset 1))) = 18446744073709551615 \<and>
   isUnknown (Offset_plus (Offset 18446744073709551614) (Offset 1)) \<and>
   \<not> isUnknown (Offset 18446744073709551614) \<and> \<not> isUnknown (Offset 5) \<and>
   unat (offset (Offset_plus (Offset 18446744073709551614) (Offset 5))) = 3 \<and>
   isUnknown Offset_UNKNOWN \<and> isUnknown (Offset_plus Offset_UNKNOWN (Offset 5))"
proof -
  have fin: "\<not> isUnknown (Offset 18446744073709551614)" "\<not> isUnknown (Offset 1)" "\<not> isUnknown (Offset 5)"
    by (simp_all add: isUnknown_def UNKNOWN_OFFSET_def)
  have unk: "isUnknown Offset_UNKNOWN"
    by (simp add: isUnknown_def Offset_UNKNOWN_def)
  have a: "unat (offset (Offset_plus (Offset 18446744073709551614) (Offset 1))) = 18446744073709551615 \<and>
           isUnknown (Offset_plus (Offset 18446744073709551614) (Offset 1))"
    using Offset_plus_wraps [of "Offset 18446744073709551614" "Offset 1"] fin by simp
  have b: "unat (offset (Offset_plus (Offset 18446744073709551614) (Offset 5))) = 3"
    using Offset_plus_wraps [of "Offset 18446744073709551614" "Offset 5"] fin by simp
  have c: "isUnknown (Offset_plus Offset_UNKNOWN (Offset 5))"
    using Offset_plus_wraps [of Offset_UNKNOWN "Offset 5"] unk by blast
  show ?thesis using fin unk a b c by simp
qed

end
